theory Spec2Isabelle
  imports Complex_Main
begin

section \<open>Incremental SCD Type-2 loads of prices and products\<close>

text \<open>
  The development embeds \<^verbatim>\<open>Prices_incremental_ETL.py\<close> and
  \<^verbatim>\<open>Products_incremental_etl.py\<close>. Each load stages a batch, runs a
  \<^verbatim>\<open>MERGE\<close> statement that closes superseded versions and inserts first
  versions, runs a second \<^verbatim>\<open>INSERT ... SELECT\<close> statement that is meant to
  insert the replacement versions, and writes an audit entry.

  Tables are lists of rows. Timestamps are natural numbers. What the outside world
  decides during one run (the clocks, and whether a statement fails) is an explicit
  input, the \<open>environment\<close>.
\<close>

subsection \<open>Data model\<close>

type_synonym timestamp = nat

text \<open>
  The columns both entities share. \<^verbatim>\<open>price FLOAT\<close> is only copied and
  compared with \<^verbatim>\<open>!=\<close> by the statements, never computed with, so it is a
  real number here. Every column of a staged row holds a value: the product loader
  builds each one with \<^verbatim>\<open>str\<close>, \<^verbatim>\<open>json.dumps\<close> or
  \<^verbatim>\<open>datetime.fromisoformat\<close>, and the price rows are the parsed rows of the
  CSV file. A staged row with \<^verbatim>\<open>NULL\<close> in a column is outside this model.
\<close>

record item =
  manufacturer :: string
  sku :: string
  updated_on :: timestamp

text \<open>A row of \<^verbatim>\<open>stg_prices\<close>.\<close>

record price_row = item +
  price :: real
  quantity :: int
  distributor :: string

text \<open>A row of \<^verbatim>\<open>stg_products\<close>.\<close>

record product_row = item +
  category :: string
  title :: string
  details :: string

text \<open>
  A row of a target table (\<^verbatim>\<open>prices\<close>, \<^verbatim>\<open>products_v2\<close>): the staged
  columns \<open>cols\<close> and the four history columns. \<^verbatim>\<open>valid_to\<close> is the only
  column the statements set to \<^verbatim>\<open>NULL\<close>.
\<close>

record 'a versioned =
  cols :: 'a
  valid_from :: timestamp
  valid_to :: "timestamp option"
  is_current :: bool
  ingestion_timestamp :: timestamp

text \<open>A row of \<^verbatim>\<open>etl_audit_log\<close>, with the columns \<^verbatim>\<open>log_audit\<close> writes.\<close>

record audit_entry =
  table_name :: string
  operation :: string
  records_processed :: nat
  start_time :: timestamp
  end_time :: timestamp
  status :: string
  error_message :: "string option"

text \<open>The schema \<^verbatim>\<open>ETL.ETL_SHI\<close>.\<close>

record warehouse =
  stg_prices :: "price_row list"
  prices :: "price_row versioned list"
  stg_products :: "product_row list"
  products_v2 :: "product_row versioned list"
  etl_audit_log :: "audit_entry list"

text \<open>
  The outside world during one run. \<open>start_now\<close>, \<open>batch_now\<close> and \<open>end_now\<close> are the
  three readings of \<^verbatim>\<open>datetime.now()\<close>; \<open>merge_ts\<close> and \<open>insert_ts\<close> are what
  \<^verbatim>\<open>CURRENT_TIMESTAMP()\<close> returns in the \<^verbatim>\<open>MERGE\<close> statement and in
  the \<^verbatim>\<open>INSERT ... SELECT\<close> statement: the function is evaluated once per
  statement, and the loaders send the two statements one after the other. The four
  \<open>string option\<close> fields say whether the staging write, the two statements and the
  audit write raise (\<open>Some\<close> the message) or succeed (\<open>None\<close>).
  \<open>error_on_nondeterministic_merge\<close> is the session parameter of that name.
\<close>

record environment =
  start_now :: timestamp
  batch_now :: timestamp
  end_now :: timestamp
  merge_ts :: timestamp
  insert_ts :: timestamp
  stage_write :: "string option"
  merge_exec :: "string option"
  insert_exec :: "string option"
  audit_write :: "string option"
  error_on_nondeterministic_merge :: bool

subsection \<open>Natural keys and change predicates\<close>

text \<open>The columns of the \<^verbatim>\<open>ON\<close> clauses that identify an entity.\<close>

definition price_key :: "price_row \<Rightarrow> string \<times> string \<times> string" where
  "price_key r = (manufacturer r, sku r, distributor r)"

definition product_key :: "product_row \<Rightarrow> string \<times> string" where
  "product_key r = (manufacturer r, sku r)"

text \<open>The conditions after \<^verbatim>\<open>WHEN MATCHED AND\<close>.\<close>

definition price_changed :: "price_row \<Rightarrow> price_row \<Rightarrow> bool" where
  "price_changed tgt src = (price tgt \<noteq> price src \<or> quantity tgt \<noteq> quantity src)"

definition product_changed :: "product_row \<Rightarrow> product_row \<Rightarrow> bool" where
  "product_changed tgt src =
     (updated_on tgt < updated_on src \<or> details tgt \<noteq> details src
      \<or> category tgt \<noteq> category src \<or> title tgt \<noteq> title src)"

text \<open>
  The \<^verbatim>\<open>is_current\<close> value of a row the \<^verbatim>\<open>MERGE\<close> inserts. The price
  statement writes \<^verbatim>\<open>TRUE\<close>; the product statement compares
  \<^verbatim>\<open>src.updated_on\<close> with the maximum over the staged rows of the same
  manufacturer and sku.
\<close>

definition price_is_current :: "price_row list \<Rightarrow> price_row \<Rightarrow> bool" where
  "price_is_current stg src = True"

definition product_is_current :: "product_row list \<Rightarrow> product_row \<Rightarrow> bool" where
  "product_is_current stg src =
     (let same = filter (\<lambda>r. manufacturer r = manufacturer src \<and> sku r = sku src) stg
      in same \<noteq> [] \<and> updated_on src = Max (set (map updated_on same)))"

subsection \<open>The two statements\<close>

text \<open>
  The statements of the two loaders differ only in the key columns, in the change
  predicate and in the \<^verbatim>\<open>is_current\<close> expression, which are parameters here.

  \<open>on_current\<close> is the \<^verbatim>\<open>ON\<close> clause of the \<^verbatim>\<open>MERGE\<close>: equal key
  columns and \<^verbatim>\<open>tgt.is_current = TRUE\<close>.
\<close>

definition on_current :: "('a \<Rightarrow> 'k) \<Rightarrow> 'a \<Rightarrow> 'a versioned \<Rightarrow> bool" where
  "on_current key src tgt = (key (cols tgt) = key src \<and> is_current tgt)"

text \<open>A target row takes the \<^verbatim>\<open>WHEN MATCHED AND ... THEN UPDATE\<close> branch when
  a staged row joins it and differs from it.\<close>

definition superseded ::
  "('a \<Rightarrow> 'k) \<Rightarrow> ('a \<Rightarrow> 'a \<Rightarrow> bool) \<Rightarrow> 'a list \<Rightarrow> 'a versioned \<Rightarrow> bool" where
  "superseded key changed stg tgt =
     list_ex (\<lambda>src. on_current key src tgt \<and> changed (cols tgt) src) stg"

text \<open>\<^verbatim>\<open>UPDATE SET valid_to = CURRENT_TIMESTAMP(), is_current = FALSE\<close>.\<close>

definition close_version :: "timestamp \<Rightarrow> 'a versioned \<Rightarrow> 'a versioned" where
  "close_version T tgt = tgt\<lparr>valid_to := Some T, is_current := False\<rparr>"

text \<open>
  A row inserted at statement time \<open>T\<close>: \<^verbatim>\<open>valid_from\<close> and
  \<^verbatim>\<open>ingestion_timestamp\<close> are \<^verbatim>\<open>CURRENT_TIMESTAMP()\<close> (written, or the
  column default), \<^verbatim>\<open>valid_to\<close> is \<^verbatim>\<open>NULL\<close> (the column default, or
  written).
\<close>

definition new_version :: "timestamp \<Rightarrow> bool \<Rightarrow> 'a \<Rightarrow> 'a versioned" where
  "new_version T cur src =
     \<lparr>cols = src, valid_from = T, valid_to = None, is_current = cur,
      ingestion_timestamp = T\<rparr>"

text \<open>
  The \<^verbatim>\<open>MERGE\<close> statement at statement time \<open>T\<close>. Every target row that is
  superseded is closed; every staged row that joins no target row
  (\<^verbatim>\<open>WHEN NOT MATCHED\<close>) is inserted, duplicates of a key included. Both are
  decided on the target as it was before the statement.
\<close>

definition merge_stmt ::
  "('a \<Rightarrow> 'k) \<Rightarrow> ('a \<Rightarrow> 'a \<Rightarrow> bool) \<Rightarrow> ('a list \<Rightarrow> 'a \<Rightarrow> bool) \<Rightarrow> timestamp
     \<Rightarrow> 'a list \<Rightarrow> 'a versioned list \<Rightarrow> 'a versioned list" where
  "merge_stmt key changed cur T stg tgt =
     map (\<lambda>t. if superseded key changed stg t then close_version T t else t) tgt
     @ map (\<lambda>s. new_version T (cur stg s) s)
         (filter (\<lambda>s. \<not> list_ex (on_current key s) tgt) stg)"

text \<open>
  A \<^verbatim>\<open>MERGE\<close> is nondeterministic when more than one staged row selects the
  same target row for the update; the warehouse then refuses the statement unless the
  session parameter is switched off.
\<close>

definition nondeterministic ::
  "('a \<Rightarrow> 'k) \<Rightarrow> ('a \<Rightarrow> 'a \<Rightarrow> bool) \<Rightarrow> 'a list \<Rightarrow> 'a versioned list \<Rightarrow> bool" where
  "nondeterministic key changed stg tgt =
     list_ex (\<lambda>t. 1 < length (filter (\<lambda>s. on_current key s t \<and> changed (cols t) s) stg)) tgt"

text \<open>
  The \<^verbatim>\<open>INSERT ... SELECT\<close> statement at statement time \<open>T\<close>: one row for each
  pair of a staged row and a target row with equal key columns and
  \<^verbatim>\<open>tgt.valid_to = CURRENT_TIMESTAMP()\<close>.
\<close>

definition insert_stmt ::
  "('a \<Rightarrow> 'k) \<Rightarrow> timestamp \<Rightarrow> 'a list \<Rightarrow> 'a versioned list \<Rightarrow> 'a versioned list" where
  "insert_stmt key T stg tgt =
     tgt @ concat (map (\<lambda>s. map (\<lambda>t. new_version T True s)
                     (filter (\<lambda>t. key (cols t) = key s \<and> valid_to t = Some T) tgt)) stg)"

subsection \<open>The audit logger\<close>

text \<open>
  \<^verbatim>\<open>log_audit\<close> appends one entry. An exception while writing it is caught and
  logged inside the function, which then returns normally with the table unchanged.
\<close>

definition log_audit ::
  "environment \<Rightarrow> string \<Rightarrow> string \<Rightarrow> nat \<Rightarrow> timestamp \<Rightarrow> string \<Rightarrow> string option
     \<Rightarrow> warehouse \<Rightarrow> warehouse" where
  "log_audit env tname oper processed started stat msg w =
     (case audit_write env of
        Some e \<Rightarrow> w
      | None \<Rightarrow>
          w\<lparr>etl_audit_log := etl_audit_log w @
              [\<lparr>table_name = tname, operation = oper, records_processed = processed,
                start_time = started, end_time = end_now env, status = stat,
                error_message = msg\<rparr>]\<rparr>)"

subsection \<open>The price loader\<close>

definition merge_prices :: "environment \<Rightarrow> warehouse \<Rightarrow> string + warehouse" where
  "merge_prices env w =
     (case merge_exec env of
        Some e \<Rightarrow> Inl e
      | None \<Rightarrow>
          if error_on_nondeterministic_merge env
             \<and> nondeterministic price_key price_changed (stg_prices w) (prices w)
          then Inl ''Duplicate row detected during DML action''
          else Inr (w\<lparr>prices := merge_stmt price_key price_changed price_is_current
                                   (merge_ts env) (stg_prices w) (prices w)\<rparr>))"

definition insert_prices :: "environment \<Rightarrow> warehouse \<Rightarrow> string + warehouse" where
  "insert_prices env w =
     (case insert_exec env of
        Some e \<Rightarrow> Inl e
      | None \<Rightarrow>
          Inr (w\<lparr>prices := insert_stmt price_key (insert_ts env) (stg_prices w) (prices w)\<rparr>))"

text \<open>
  The data frame that is staged: the parsed rows (manufacturer, sku, price, quantity)
  with the two columns the loader adds, \<^verbatim>\<open>df["distributor"] = distributor\<close> and
  \<^verbatim>\<open>df["updated_on"] = datetime.now()\<close>.
\<close>

definition price_frame ::
  "timestamp \<Rightarrow> string \<Rightarrow> (string \<times> string \<times> real \<times> int) list \<Rightarrow> price_row list" where
  "price_frame now distr rows =
     map (\<lambda>(m, s, p, q).
            \<lparr>manufacturer = m, sku = s, updated_on = now,
             price = p, quantity = q, distributor = distr\<rparr>) rows"

text \<open>
  The body of the \<^verbatim>\<open>try\<close> block of \<^verbatim>\<open>load_prices_incremental\<close>.
  \<open>csv_file\<close> is what \<^verbatim>\<open>pd.read_csv\<close> gives for the file: the message of the
  exception it raises, or the parsed rows (manufacturer, sku, price, quantity). The
  result is the exception raised (\<open>None\<close> when the body completes) and the states of
  the warehouse in order: after the staging write, after the \<^verbatim>\<open>MERGE\<close>, after
  the \<^verbatim>\<open>INSERT ... SELECT\<close> and after \<^verbatim>\<open>log_audit\<close>, as far as the
  body gets. Each statement is sent to the warehouse on its own; the loaders open no
  transaction.
\<close>

definition prices_try ::
  "environment \<Rightarrow> string + (string \<times> string \<times> real \<times> int) list \<Rightarrow> string \<Rightarrow> timestamp
     \<Rightarrow> warehouse \<Rightarrow> string option \<times> warehouse list" where
  "prices_try env csv_file distr started w =
     (case csv_file of
        Inl e \<Rightarrow> (Some e, [])
      | Inr rows \<Rightarrow>
          let df = price_frame (batch_now env) distr rows
          in if df \<noteq> [] then
               (case stage_write env of
                  Some e \<Rightarrow> (Some e, [])
                | None \<Rightarrow>
                    let w1 = w\<lparr>stg_prices := df\<rparr> in
                    (case merge_prices env w1 of
                       Inl e \<Rightarrow> (Some e, [w1])
                     | Inr w2 \<Rightarrow>
                         (case insert_prices env w2 of
                            Inl e \<Rightarrow> (Some e, [w1, w2])
                          | Inr w3 \<Rightarrow>
                              (None, [w1, w2, w3,
                                 log_audit env ''prices'' ''MERGE'' (length df) started
                                   ''SUCCESS'' None w3]))))
             else (None, []))"

text \<open>
  \<^verbatim>\<open>load_prices_incremental\<close>: the \<^verbatim>\<open>except\<close> clause logs an
  \<^verbatim>\<open>ERROR\<close> entry with zero records and the message, and raises the exception
  again. The state after that \<^verbatim>\<open>log_audit\<close> is the last one of the run.
\<close>

definition load_prices_incremental ::
  "environment \<Rightarrow> string + (string \<times> string \<times> real \<times> int) list \<Rightarrow> string
     \<Rightarrow> warehouse \<Rightarrow> string option \<times> warehouse list" where
  "load_prices_incremental env csv_file distr w =
     (let started = start_now env in
      case prices_try env csv_file distr started w of
        (None, ws) \<Rightarrow> (None, ws)
      | (Some e, ws) \<Rightarrow>
          (Some e, ws @ [log_audit env ''prices'' ''MERGE'' 0 started ''ERROR'' (Some e)
                           (last (w # ws))]))"

subsection \<open>The product loader\<close>

definition merge_products :: "environment \<Rightarrow> warehouse \<Rightarrow> string + warehouse" where
  "merge_products env w =
     (case merge_exec env of
        Some e \<Rightarrow> Inl e
      | None \<Rightarrow>
          if error_on_nondeterministic_merge env
             \<and> nondeterministic product_key product_changed (stg_products w) (products_v2 w)
          then Inl ''Duplicate row detected during DML action''
          else Inr (w\<lparr>products_v2 := merge_stmt product_key product_changed product_is_current
                                        (merge_ts env) (stg_products w) (products_v2 w)\<rparr>))"

definition insert_products :: "environment \<Rightarrow> warehouse \<Rightarrow> string + warehouse" where
  "insert_products env w =
     (case insert_exec env of
        Some e \<Rightarrow> Inl e
      | None \<Rightarrow>
          Inr (w\<lparr>products_v2 :=
                   insert_stmt product_key (insert_ts env) (stg_products w) (products_v2 w)\<rparr>))"

text \<open>
  The body of the \<^verbatim>\<open>try\<close> block of \<^verbatim>\<open>load_products_incremental\<close>.
  \<open>json_file\<close> is what reading the file and preparing \<^verbatim>\<open>records\<close> gives: the
  message of the exception raised, or the prepared records (the products that have
  all six fields).
\<close>

definition products_try ::
  "environment \<Rightarrow> string + product_row list \<Rightarrow> timestamp
     \<Rightarrow> warehouse \<Rightarrow> string option \<times> warehouse list" where
  "products_try env json_file started w =
     (case json_file of
        Inl e \<Rightarrow> (Some e, [])
      | Inr records \<Rightarrow>
          if records \<noteq> [] then
            (case stage_write env of
               Some e \<Rightarrow> (Some e, [])
             | None \<Rightarrow>
                 let w1 = w\<lparr>stg_products := records\<rparr> in
                 (case merge_products env w1 of
                    Inl e \<Rightarrow> (Some e, [w1])
                  | Inr w2 \<Rightarrow>
                      (case insert_products env w2 of
                         Inl e \<Rightarrow> (Some e, [w1, w2])
                       | Inr w3 \<Rightarrow>
                           (None, [w1, w2, w3,
                              log_audit env ''products_v2'' ''MERGE'' (length records) started
                                ''SUCCESS'' None w3]))))
          else (None, []))"

definition load_products_incremental ::
  "environment \<Rightarrow> string + product_row list \<Rightarrow> warehouse
     \<Rightarrow> string option \<times> warehouse list" where
  "load_products_incremental env json_file w =
     (let started = start_now env in
      case products_try env json_file started w of
        (None, ws) \<Rightarrow> (None, ws)
      | (Some e, ws) \<Rightarrow>
          (Some e, ws @ [log_audit env ''products_v2'' ''MERGE'' 0 started ''ERROR'' (Some e)
                           (last (w # ws))]))"

text \<open>The warehouse a run leaves behind.\<close>

definition final :: "warehouse \<Rightarrow> string option \<times> warehouse list \<Rightarrow> warehouse" where
  "final w run = last (w # snd run)"

subsection \<open>Invariants of a target table\<close>

text \<open>The versions of key \<open>k\<close> that are marked current.\<close>

definition current_versions :: "('a \<Rightarrow> 'k) \<Rightarrow> 'k \<Rightarrow> 'a versioned list \<Rightarrow> 'a versioned list" where
  "current_versions key k tgt = filter (\<lambda>t. key (cols t) = k \<and> is_current t) tgt"

text \<open>I1: no two current rows have the same natural key.\<close>

definition I1 :: "('a \<Rightarrow> 'k) \<Rightarrow> 'a versioned list \<Rightarrow> bool" where
  "I1 key tgt = distinct (map (\<lambda>t. key (cols t)) (filter is_current tgt))"

text \<open>I2: \<^verbatim>\<open>valid_to\<close> is \<^verbatim>\<open>NULL\<close> exactly on the current rows.\<close>

definition I2 :: "'a versioned list \<Rightarrow> bool" where
  "I2 tgt = list_all (\<lambda>t. (valid_to t = None) = is_current t) tgt"

subsection \<open>Inputs used in the examples\<close>

definition empty_warehouse :: warehouse where
  "empty_warehouse =
     \<lparr>stg_prices = [], prices = [], stg_products = [], products_v2 = [], etl_audit_log = []\<rparr>"

text \<open>
  A run in which nothing fails, whose \<^verbatim>\<open>MERGE\<close> reads the timestamp \<open>Tm\<close> and
  whose \<^verbatim>\<open>INSERT ... SELECT\<close> reads \<open>Ti\<close>.
\<close>

definition env_at :: "timestamp \<Rightarrow> timestamp \<Rightarrow> environment" where
  "env_at Tm Ti =
     \<lparr>start_now = Tm, batch_now = Tm, end_now = Ti, merge_ts = Tm, insert_ts = Ti,
      stage_write = None, merge_exec = None, insert_exec = None, audit_write = None,
      error_on_nondeterministic_merge = True\<rparr>"

text \<open>A staging write, a \<^verbatim>\<open>MERGE\<close> and an \<^verbatim>\<open>INSERT ... SELECT\<close> that fail.\<close>

definition env_stage_fails :: environment where
  "env_stage_fails = (env_at 1 2)\<lparr>stage_write := Some ''staging write failed''\<rparr>"

definition env_merge_fails :: environment where
  "env_merge_fails = (env_at 1 2)\<lparr>merge_exec := Some ''merge failed''\<rparr>"

definition env_insert_fails :: environment where
  "env_insert_fails = (env_at 1 2)\<lparr>insert_exec := Some ''insert failed''\<rparr>"

text \<open>
  The price row of manufacturer Acme, sku X1 and distributor D1 with price \<open>p\<close>, staged at
  \<open>u\<close>; the product row of manufacturer Acme and sku W1 updated at \<open>u\<close> with details \<open>d\<close>.
\<close>

definition acme_at :: "real \<Rightarrow> timestamp \<Rightarrow> price_row" where
  "acme_at p u = \<lparr>manufacturer = ''Acme'', sku = ''X1'', updated_on = u,
                   price = p, quantity = 5, distributor = ''D1''\<rparr>"

definition widget :: "timestamp \<Rightarrow> string \<Rightarrow> product_row" where
  "widget u d = \<lparr>manufacturer = ''Acme'', sku = ''W1'', updated_on = u,
                 category = ''tools'', title = ''Widget'', details = d\<rparr>"

text \<open>A warehouse that holds one current version of each of the two.\<close>

definition stocked :: warehouse where
  "stocked =
     \<lparr>stg_prices = [],
      prices = [\<lparr>cols = acme_at 9.99 1, valid_from = 1, valid_to = None, is_current = True,
                  ingestion_timestamp = 1\<rparr>],
      stg_products = [],
      products_v2 = [\<lparr>cols = widget 1 ''{}'', valid_from = 1, valid_to = None,
                       is_current = True, ingestion_timestamp = 1\<rparr>],
      etl_audit_log = []\<rparr>"

section \<open>Properties\<close>

lemmas run_defs =
  load_prices_incremental_def prices_try_def price_frame_def merge_prices_def insert_prices_def
  load_products_incremental_def products_try_def merge_products_def insert_products_def
  log_audit_def final_def merge_stmt_def insert_stmt_def nondeterministic_def superseded_def
  on_current_def new_version_def close_version_def price_key_def product_key_def
  price_changed_def product_changed_def price_is_current_def product_is_current_def
  env_at_def empty_warehouse_def current_versions_def I1_def I2_def Let_def

lemmas ex_defs = stocked_def acme_at_def widget_def

lemmas hyp_defs =
  env_at_def env_stage_fails_def env_merge_fails_def env_insert_fails_def stocked_def
  nondeterministic_def on_current_def price_key_def product_key_def price_changed_def
  product_changed_def price_frame_def acme_at_def widget_def

subsection \<open>The statements\<close>

lemma close_version_simps [simp]:
  "cols (close_version T t) = cols t"
  "is_current (close_version T t) = False"
  "valid_to (close_version T t) = Some T"
  "valid_from (close_version T t) = valid_from t"
  by (simp_all add: close_version_def)

lemma new_version_simps [simp]:
  "cols (new_version T c s) = s"
  "is_current (new_version T c s) = c"
  "valid_to (new_version T c s) = None"
  "valid_from (new_version T c s) = T"
  by (simp_all add: new_version_def)

lemma superseded_current: "superseded key changed stg t \<Longrightarrow> is_current t"
  by (auto simp: superseded_def on_current_def list_ex_iff)



lemma distinct_map_count:
  "distinct (map f xs) \<longleftrightarrow> (\<forall>k. length (filter (\<lambda>x. f x = k) xs) \<le> 1)"
proof (induction xs)
  case Nil
  show ?case by simp
next
  case (Cons x xs)
  show ?case
  proof
    assume d: "distinct (map f (x # xs))"
    then have n: "filter (\<lambda>y. f y = f x) xs = []"
      by (force simp: filter_empty_conv image_iff)
    from d Cons have r: "\<forall>k. length (filter (\<lambda>x. f x = k) xs) \<le> 1" by simp
    show "\<forall>k. length (filter (\<lambda>y. f y = k) (x # xs)) \<le> 1"
      using n r by auto
  next
    assume a: "\<forall>k. length (filter (\<lambda>y. f y = k) (x # xs)) \<le> 1"
    then have "length (filter (\<lambda>y. f y = f x) (x # xs)) \<le> 1" by blast
    then have "filter (\<lambda>y. f y = f x) xs = []" by simp
    then have n: "f x \<notin> f ` set xs" by (auto simp: filter_empty_conv)
    have "\<forall>k. length (filter (\<lambda>y. f y = k) xs) \<le> 1"
    proof
      fix k
      have "length (filter (\<lambda>y. f y = k) xs) \<le> length (filter (\<lambda>y. f y = k) (x # xs))" by simp
      also have "\<dots> \<le> 1" using a by blast
      finally show "length (filter (\<lambda>y. f y = k) xs) \<le> 1" .
    qed
    with Cons n show "distinct (map f (x # xs))" by simp
  qed
qed

lemma I1_count: "I1 key tgt \<longleftrightarrow> (\<forall>k. length (current_versions key k tgt) \<le> 1)"
proof -
  have "current_versions key k tgt = filter (\<lambda>t. key (cols t) = k) (filter is_current tgt)" for k
    by (simp add: current_versions_def conj_commute)
  then show ?thesis
    by (simp add: I1_def distinct_map_count [of "\<lambda>t. key (cols t)"])
qed

lemma current_versions_append [simp]:
  "current_versions key k (xs @ ys) = current_versions key k xs @ current_versions key k ys"
  by (simp add: current_versions_def)










lemma I2_merge_stmt:
  assumes "I2 X" "\<And>s. s \<in> set stg \<Longrightarrow> \<not> list_ex (on_current key s) X \<Longrightarrow> cur stg s"
  shows "I2 (merge_stmt key changed cur T stg X)"
  using assms by (auto simp: I2_def merge_stmt_def list_all_iff)

lemma I2_insert_stmt: "I2 M \<Longrightarrow> I2 (insert_stmt key T stg M)"
  by (auto simp: I2_def insert_stmt_def list_all_iff)

lemma filter_distinct_key:
  "distinct (map f xs) \<Longrightarrow> x \<in> set xs \<Longrightarrow> filter (\<lambda>y. f y = f x) xs = [x]"
proof (induction xs)
  case Nil
  then show ?case by simp
next
  case (Cons a xs)
  show ?case
  proof (cases "x = a")
    case True
    from Cons.prems have "f a \<notin> f ` set xs" by simp
    then have "filter (\<lambda>y. f y = f a) xs = []"
      by (force simp: filter_empty_conv image_iff)
    with True show ?thesis by simp
  next
    case False
    with Cons.prems have x: "x \<in> set xs" by simp
    from Cons.prems have "f a \<notin> f ` set xs" by simp
    with x have "f a \<noteq> f x" by (force simp: image_iff)
    with Cons x show ?thesis by simp
  qed
qed

lemma product_is_current_distinct:
  assumes "distinct (map product_key stg)" "s \<in> set stg"
  shows "product_is_current stg s"
proof -
  have "filter (\<lambda>r. manufacturer r = manufacturer s \<and> sku r = sku s) stg
        = filter (\<lambda>r. product_key r = product_key s) stg"
    by (simp add: product_key_def)
  also have "\<dots> = [s]" using assms by (rule filter_distinct_key)
  finally show ?thesis by (simp add: product_is_current_def)
qed

lemma count_le_1_unique:
  "length (filter P xs) \<le> 1 \<Longrightarrow> x \<in> set xs \<Longrightarrow> P x \<Longrightarrow> y \<in> set xs \<Longrightarrow> P y \<Longrightarrow> x = y"
proof (induction xs)
  case Nil
  then show ?case by simp
next
  case (Cons a xs)
  show ?case
  proof (cases "P a")
    case True
    with Cons.prems(1) have "filter P xs = []" by simp
    then have "\<forall>z\<in>set xs. \<not> P z" by (simp add: filter_empty_conv)
    with Cons.prems show ?thesis by auto
  next
    case False
    with Cons show ?thesis by auto
  qed
qed

lemma merge_leaves_no_current:
  assumes i: "I1 key X" and t: "t \<in> set X" and s: "superseded key changed stg t"
  shows "current_versions key (key (cols t)) (merge_stmt key changed cur T stg X) = []"
proof -
  let ?k = "key (cols t)"
  have c: "is_current t" using s by (rule superseded_current)
  have one: "length (filter (\<lambda>t'. key (cols t') = ?k \<and> is_current t') X) \<le> 1"
    using i by (simp add: I1_count current_versions_def)
  have u: "t' = t" if "t' \<in> set X" "key (cols t') = ?k" "is_current t'" for t'
    using count_le_1_unique [OF one that(1) _ t] that c by simp
  have a: "current_versions key ?k
      (map (\<lambda>t. if superseded key changed stg t then close_version T t else t) X) = []"
    using u s by (auto simp: current_versions_def filter_empty_conv)
  have b: "current_versions key ?k
      (map (\<lambda>s. new_version T (cur stg s) s)
         (filter (\<lambda>s. \<not> list_ex (on_current key s) X) stg)) = []"
    using t c by (auto simp: current_versions_def filter_empty_conv list_ex_iff on_current_def)
  show ?thesis using a b by (simp add: merge_stmt_def)
qed


lemma in_merge_stmt:
  assumes "t' \<in> set (merge_stmt key changed cur T stg X)"
  shows "(t' \<in> set X \<and> \<not> superseded key changed stg t')
       \<or> (\<exists>t\<in>set X. t' = close_version T t)
       \<or> (\<exists>s\<in>set stg. t' = new_version T (cur stg s) s)"
  using assms by (auto simp: merge_stmt_def)

lemma in_insert_stmt:
  assumes "t' \<in> set (insert_stmt key T stg M)"
  shows "t' \<in> set M \<or> (\<exists>s\<in>set stg. t' = new_version T True s)"
  using assms by (auto simp: insert_stmt_def)

lemma settled_merge:
  assumes "\<And>t. t \<in> set Y \<Longrightarrow> \<not> superseded key changed stg t"
    and "\<And>s. s \<in> set stg \<Longrightarrow> list_ex (on_current key s) Y"
  shows "merge_stmt key changed cur T stg Y = Y"
proof -
  have "map (\<lambda>t. if superseded key changed stg t then close_version T t else t) Y = Y"
    using assms(1) by (simp add: map_idI)
  moreover have "filter (\<lambda>s. \<not> list_ex (on_current key s) Y) stg = []"
    using assms(2) by (simp add: filter_empty_conv)
  ultimately show ?thesis by (simp add: merge_stmt_def)
qed

lemma settled_insert:
  assumes "\<And>t s. t \<in> set Y \<Longrightarrow> s \<in> set stg \<Longrightarrow> key (cols t) = key s \<Longrightarrow> valid_to t \<noteq> Some T"
  shows "insert_stmt key T stg Y = Y"
proof -
  have "filter (\<lambda>t. key (cols t) = key s \<and> valid_to t = Some T) Y = []" if "s \<in> set stg" for s
    using assms that by (auto simp: filter_empty_conv)
  then have "concat (map (\<lambda>s. map (\<lambda>t. new_version T True s)
                     (filter (\<lambda>t. key (cols t) = key s \<and> valid_to t = Some T) Y)) stg) = []"
    by simp
  then show ?thesis by (simp add: insert_stmt_def)
qed

lemma distinct_key_eq:
  "distinct (map f xs) \<Longrightarrow> x \<in> set xs \<Longrightarrow> y \<in> set xs \<Longrightarrow> f x = f y \<Longrightarrow> x = y"
  by (meson distinct_map inj_on_def)

lemma after_run_not_superseded:
  assumes d: "distinct (map key stg)"
    and irr: "\<And>s. \<not> changed s s"
    and fc: "\<And>c s. changed c (f s) = changed c s"
    and fk: "\<And>s. key (f s) = key s"
    and t': "t' \<in> set (insert_stmt key T' stg (merge_stmt key changed cur T stg X))"
  shows "\<not> superseded key changed (map f stg) t'"
proof
  assume "superseded key changed (map f stg) t'"
  then obtain s where s: "s \<in> set stg" "key (cols t') = key s" "is_current t'"
      "changed (cols t') s"
    by (auto simp: superseded_def list_ex_iff on_current_def fc fk)
  have new: False if "s0 \<in> set stg" "t' = new_version U c s0" for s0 U c
  proof -
    from that s(2) have "key s0 = key s" by simp
    with d that(1) s(1) have "s0 = s" by (rule distinct_key_eq)
    with that s(4) irr show False by simp
  qed
  from in_insert_stmt [OF t'] show False
  proof
    assume "t' \<in> set (merge_stmt key changed cur T stg X)"
    from in_merge_stmt [OF this] show False
    proof (elim disjE conjE bexE)
      assume "\<not> superseded key changed stg t'"
      with s show False by (auto simp: superseded_def list_ex_iff on_current_def)
    next
      fix t assume "t' = close_version T t"
      with s(3) show False by simp
    next
      fix s0 assume "s0 \<in> set stg" "t' = new_version T (cur stg s0) s0"
      then show False by (rule new)
    qed
  next
    assume "\<exists>s\<in>set stg. t' = new_version T' True s"
    then show False using new by blast
  qed
qed

lemma after_run_valid_to:
  assumes "T2 \<noteq> T" and "\<And>t. t \<in> set X \<Longrightarrow> valid_to t \<noteq> Some T2"
    and t': "t' \<in> set (insert_stmt key T' stg (merge_stmt key changed cur T stg X))"
  shows "valid_to t' \<noteq> Some T2"
  using in_insert_stmt [OF t'] in_merge_stmt [of t' key changed cur T stg X] assms(1,2)
  by auto

lemma insert_adds_nothing_after_clock_tick:
  assumes "T' \<noteq> T" and "\<And>t. t \<in> set X \<Longrightarrow> valid_to t \<noteq> Some T'"
  shows "insert_stmt key T' stg (merge_stmt key changed cur T stg X)
         = merge_stmt key changed cur T stg X"
proof (rule settled_insert)
  fix t s assume "t \<in> set (merge_stmt key changed cur T stg X)"
  from in_merge_stmt [OF this] assms show "valid_to t \<noteq> Some T'" by auto
qed

lemma rerun_is_noop:
  assumes d: "distinct (map key stg)"
    and irr: "\<And>s. \<not> changed s s"
    and fc: "\<And>c s. changed c (f s) = changed c s"
    and fk: "\<And>s. key (f s) = key s"
    and H: "\<And>s. s \<in> set stg \<Longrightarrow>
              list_ex (on_current key s) (insert_stmt key T' stg (merge_stmt key changed cur T stg X))"
    and ts: "T2' \<noteq> T" and v: "\<And>t. t \<in> set X \<Longrightarrow> valid_to t \<noteq> Some T2'"
    and Y: "Y = insert_stmt key T' stg (merge_stmt key changed cur T stg X)"
  shows "merge_stmt key changed cur2 T2 (map f stg) Y = Y"
    and "insert_stmt key T2' (map f stg) Y = Y"
proof -
  show "merge_stmt key changed cur2 T2 (map f stg) Y = Y"
  proof (rule settled_merge)
    fix t assume a: "t \<in> set Y"
    show "\<not> superseded key changed (map f stg) t"
      by (rule after_run_not_superseded [OF d irr fc fk a [unfolded Y]])
  next
    fix s assume "s \<in> set (map f stg)"
    then obtain s0 where "s0 \<in> set stg" "s = f s0" by auto
    moreover have "on_current key (f s0) = on_current key s0"
      by (rule ext) (simp add: on_current_def fk)
    ultimately show "list_ex (on_current key s) Y"
      using H [of s0] by (simp add: Y)
  qed
  show "insert_stmt key T2' (map f stg) Y = Y"
  proof (rule settled_insert)
    fix t s assume a: "t \<in> set Y"
    show "valid_to t \<noteq> Some T2'"
      by (rule after_run_valid_to [OF ts v a [unfolded Y]])
  qed
qed

lemma every_key_current_after_run:
  assumes c: "\<And>s. s \<in> set stg \<Longrightarrow> cur stg s"
    and e: "T' = T \<or> \<not> list_ex (superseded key changed stg) X"
    and s: "s \<in> set stg"
  shows "list_ex (on_current key s) (insert_stmt key T' stg (merge_stmt key changed cur T stg X))"
proof (cases "list_ex (on_current key s) X")
  case False
  with s have "new_version T (cur stg s) s \<in> set (merge_stmt key changed cur T stg X)"
    by (simp add: merge_stmt_def)
  then have "new_version T (cur stg s) s
      \<in> set (insert_stmt key T' stg (merge_stmt key changed cur T stg X))"
    by (simp add: insert_stmt_def)
  moreover have "on_current key s (new_version T (cur stg s) s)"
    using c [OF s] by (simp add: on_current_def)
  ultimately show ?thesis unfolding list_ex_iff by blast
next
  case True
  then obtain t where t: "t \<in> set X" "on_current key s t" by (auto simp: list_ex_iff)
  show ?thesis
  proof (cases "superseded key changed stg t")
    case False
    with t have "t \<in> set (insert_stmt key T' stg (merge_stmt key changed cur T stg X))"
      by (auto simp: insert_stmt_def merge_stmt_def intro!: image_eqI [where x = t])
    with t(2) show ?thesis unfolding list_ex_iff by blast
  next
    case sup: True
    with t(1) e have T: "T' = T" by (auto simp: list_ex_iff)
    from t(1) sup have m: "close_version T t \<in> set (merge_stmt key changed cur T stg X)"
      by (auto simp: merge_stmt_def intro!: image_eqI [where x = t])
    have k: "key (cols (close_version T t)) = key s" "valid_to (close_version T t) = Some T'"
      using t(2) T by (simp_all add: on_current_def)
    have "new_version T' True s
      \<in> set (insert_stmt key T' stg (merge_stmt key changed cur T stg X))"
      using s m k by (auto simp: insert_stmt_def intro!: bexI [where x = s] image_eqI [where x = "close_version T t"])
    moreover have "on_current key s (new_version T' True s)" by (simp add: on_current_def)
    ultimately show ?thesis unfolding list_ex_iff by blast
  qed
qed

subsection \<open>The loaders\<close>

lemma log_audit_tables:
  "prices (log_audit env a b c d e f w) = prices w"
  "products_v2 (log_audit env a b c d e f w) = products_v2 w"
  "stg_prices (log_audit env a b c d e f w) = stg_prices w"
  "stg_products (log_audit env a b c d e f w) = stg_products w"
  by (simp_all add: log_audit_def split: option.splits)

lemma merge_prices_audit: "merge_prices env w = Inr w' \<Longrightarrow> etl_audit_log w' = etl_audit_log w"
  by (auto simp: merge_prices_def split: option.splits if_splits)

lemma insert_prices_audit: "insert_prices env w = Inr w' \<Longrightarrow> etl_audit_log w' = etl_audit_log w"
  by (auto simp: insert_prices_def split: option.splits if_splits)

lemma merge_products_audit: "merge_products env w = Inr w' \<Longrightarrow> etl_audit_log w' = etl_audit_log w"
  by (auto simp: merge_products_def split: option.splits if_splits)

lemma insert_products_audit: "insert_products env w = Inr w' \<Longrightarrow> etl_audit_log w' = etl_audit_log w"
  by (auto simp: insert_products_def split: option.splits if_splits)

lemma prices_try_raises_audit:
  "prices_try env csv_file distr started w = (Some e, ws) \<Longrightarrow>
     etl_audit_log (last (w # ws)) = etl_audit_log w"
  by (auto simp: prices_try_def Let_def merge_prices_audit insert_prices_audit
      split: sum.splits option.splits if_splits)

lemma products_try_raises_audit:
  "products_try env json_file started w = (Some e, ws) \<Longrightarrow>
     etl_audit_log (last (w # ws)) = etl_audit_log w"
  by (auto simp: products_try_def Let_def merge_products_audit insert_products_audit
      split: sum.splits option.splits if_splits)

lemma prices_try_fails:
  assumes "rows \<noteq> []"
    and "stage_write env = Some e
       \<or> stage_write env = None \<and> merge_exec env = Some e
       \<or> stage_write env = None \<and> merge_exec env = None
           \<and> error_on_nondeterministic_merge env
           \<and> nondeterministic price_key price_changed
                 (price_frame (batch_now env) distr rows) (prices w)
           \<and> e = ''Duplicate row detected during DML action''
       \<or> stage_write env = None \<and> merge_exec env = None
           \<and> \<not> (error_on_nondeterministic_merge env
                \<and> nondeterministic price_key price_changed
                      (price_frame (batch_now env) distr rows) (prices w))
           \<and> insert_exec env = Some e"
  shows "fst (prices_try env (Inr rows) distr started w) = Some e"
  using assms
  by (auto simp: prices_try_def merge_prices_def insert_prices_def price_frame_def Let_def)

lemma products_try_fails:
  assumes "records \<noteq> []"
    and "stage_write env = Some e
       \<or> stage_write env = None \<and> merge_exec env = Some e
       \<or> stage_write env = None \<and> merge_exec env = None
           \<and> error_on_nondeterministic_merge env
           \<and> nondeterministic product_key product_changed records (products_v2 w)
           \<and> e = ''Duplicate row detected during DML action''
       \<or> stage_write env = None \<and> merge_exec env = None
           \<and> \<not> (error_on_nondeterministic_merge env
                \<and> nondeterministic product_key product_changed records (products_v2 w))
           \<and> insert_exec env = Some e"
  shows "fst (products_try env (Inr records) started w) = Some e"
  using assms
  by (auto simp: products_try_def merge_products_def insert_products_def Let_def)

lemma prices_except_clause:
  assumes "fst (prices_try env csv_file distr (start_now env) w) = Some e"
  shows "fst (load_prices_incremental env csv_file distr w) = Some e"
    and "etl_audit_log (final w (load_prices_incremental env csv_file distr w)) =
        (case audit_write env of
           Some x \<Rightarrow> etl_audit_log w
         | None \<Rightarrow> etl_audit_log w @
             [\<lparr>table_name = ''prices'', operation = ''MERGE'', records_processed = 0,
               start_time = start_now env, end_time = end_now env, status = ''ERROR'',
               error_message = Some e\<rparr>])"
proof -
  from assms obtain ws where ws: "prices_try env csv_file distr (start_now env) w = (Some e, ws)"
    by (cases "prices_try env csv_file distr (start_now env) w") simp
  show "fst (load_prices_incremental env csv_file distr w) = Some e"
    using ws by (simp add: load_prices_incremental_def)
  show "etl_audit_log (final w (load_prices_incremental env csv_file distr w)) =
        (case audit_write env of
           Some x \<Rightarrow> etl_audit_log w
         | None \<Rightarrow> etl_audit_log w @
             [\<lparr>table_name = ''prices'', operation = ''MERGE'', records_processed = 0,
               start_time = start_now env, end_time = end_now env, status = ''ERROR'',
               error_message = Some e\<rparr>])"
    using ws prices_try_raises_audit [OF ws]
    by (auto simp: load_prices_incremental_def final_def log_audit_def split: option.splits if_splits)
qed

lemma products_except_clause:
  assumes "fst (products_try env json_file (start_now env) w) = Some e"
  shows "fst (load_products_incremental env json_file w) = Some e"
    and "etl_audit_log (final w (load_products_incremental env json_file w)) =
        (case audit_write env of
           Some x \<Rightarrow> etl_audit_log w
         | None \<Rightarrow> etl_audit_log w @
             [\<lparr>table_name = ''products_v2'', operation = ''MERGE'', records_processed = 0,
               start_time = start_now env, end_time = end_now env, status = ''ERROR'',
               error_message = Some e\<rparr>])"
proof -
  from assms obtain ws where ws: "products_try env json_file (start_now env) w = (Some e, ws)"
    by (cases "products_try env json_file (start_now env) w") simp
  show "fst (load_products_incremental env json_file w) = Some e"
    using ws by (simp add: load_products_incremental_def)
  show "etl_audit_log (final w (load_products_incremental env json_file w)) =
        (case audit_write env of
           Some x \<Rightarrow> etl_audit_log w
         | None \<Rightarrow> etl_audit_log w @
             [\<lparr>table_name = ''products_v2'', operation = ''MERGE'', records_processed = 0,
               start_time = start_now env, end_time = end_now env, status = ''ERROR'',
               error_message = Some e\<rparr>])"
    using ws products_try_raises_audit [OF ws]
    by (auto simp: load_products_incremental_def final_def log_audit_def split: option.splits if_splits)
qed

lemma merge_prices_audit_write [simp]:
  "merge_prices (env\<lparr>audit_write := a\<rparr>) w = merge_prices env w"
  by (simp add: merge_prices_def split: option.splits)

lemma insert_prices_audit_write [simp]:
  "insert_prices (env\<lparr>audit_write := a\<rparr>) w = insert_prices env w"
  by (simp add: insert_prices_def split: option.splits)

lemma merge_products_audit_write [simp]:
  "merge_products (env\<lparr>audit_write := a\<rparr>) w = merge_products env w"
  by (simp add: merge_products_def split: option.splits)

lemma insert_products_audit_write [simp]:
  "insert_products (env\<lparr>audit_write := a\<rparr>) w = insert_products env w"
  by (simp add: insert_products_def split: option.splits)

lemma prices_try_audit_write:
  "fst (prices_try (env\<lparr>audit_write := a\<rparr>) csv_file distr started w) =
     fst (prices_try env csv_file distr started w) \<and>
   map prices (snd (prices_try (env\<lparr>audit_write := a\<rparr>) csv_file distr started w)) =
     map prices (snd (prices_try env csv_file distr started w)) \<and>
   length (snd (prices_try (env\<lparr>audit_write := a\<rparr>) csv_file distr started w)) =
     length (snd (prices_try env csv_file distr started w))"
  by (simp add: prices_try_def Let_def log_audit_tables split: sum.splits option.splits)

lemma products_try_audit_write:
  "fst (products_try (env\<lparr>audit_write := a\<rparr>) json_file started w) =
     fst (products_try env json_file started w) \<and>
   map products_v2 (snd (products_try (env\<lparr>audit_write := a\<rparr>) json_file started w)) =
     map products_v2 (snd (products_try env json_file started w))"
  by (simp add: products_try_def Let_def log_audit_tables split: sum.splits option.splits)

lemma last_map_cons: "f (last (x # xs)) = last (f x # map f xs)"
  by (induction xs arbitrary: x) auto

lemma prices_states:
  assumes "w' \<in> set (snd (load_prices_incremental env (Inr rows) distr w))"
  shows "prices w' = prices w
       \<or> prices w' = merge_stmt price_key price_changed price_is_current (merge_ts env)
            (price_frame (batch_now env) distr rows) (prices w)
       \<or> prices w' = insert_stmt price_key (insert_ts env) (price_frame (batch_now env) distr rows)
            (merge_stmt price_key price_changed price_is_current (merge_ts env)
              (price_frame (batch_now env) distr rows) (prices w))"
  using assms
  by (auto simp: load_prices_incremental_def prices_try_def merge_prices_def insert_prices_def
      Let_def log_audit_tables split: option.splits if_splits)

lemma prices_states_unread:
  assumes "w' \<in> set (snd (load_prices_incremental env (Inl e) distr w))"
  shows "prices w' = prices w"
  using assms
  by (auto simp: load_prices_incremental_def prices_try_def log_audit_tables)

lemma products_states:
  assumes "w' \<in> set (snd (load_products_incremental env (Inr records) w))"
  shows "products_v2 w' = products_v2 w
       \<or> products_v2 w' = merge_stmt product_key product_changed product_is_current (merge_ts env)
            records (products_v2 w)
       \<or> products_v2 w' = insert_stmt product_key (insert_ts env) records
            (merge_stmt product_key product_changed product_is_current (merge_ts env)
              records (products_v2 w))"
  using assms
  by (auto simp: load_products_incremental_def products_try_def merge_products_def
      insert_products_def Let_def log_audit_tables split: option.splits if_splits)


lemma price_frame_keys:
  "map price_key (price_frame now distr rows) = map (\<lambda>(m, s, p, q). (m, s, distr)) rows"
  by (simp add: price_frame_def price_key_def split_def)

lemma price_frame_distinct:
  assumes "distinct (map (\<lambda>(m, s, p, q). (m, s)) rows)"
  shows "distinct (map price_key (price_frame now distr rows))"
proof -
  have "inj_on (\<lambda>(m, s, p, q). (m, s, distr)) (set rows)"
    using assms by (auto simp: distinct_map inj_on_def)
  moreover have "distinct rows" using assms by (simp add: distinct_map)
  ultimately show ?thesis by (simp add: price_frame_keys distinct_map)
qed

lemma prices_completed:
  assumes "fst (load_prices_incremental env (Inr rows) distr w) = None" and "rows \<noteq> []"
  shows "map prices (snd (load_prices_incremental env (Inr rows) distr w)) =
     [prices w,
      merge_stmt price_key price_changed price_is_current (merge_ts env)
        (price_frame (batch_now env) distr rows) (prices w),
      insert_stmt price_key (insert_ts env) (price_frame (batch_now env) distr rows)
        (merge_stmt price_key price_changed price_is_current (merge_ts env)
           (price_frame (batch_now env) distr rows) (prices w)),
      insert_stmt price_key (insert_ts env) (price_frame (batch_now env) distr rows)
        (merge_stmt price_key price_changed price_is_current (merge_ts env)
           (price_frame (batch_now env) distr rows) (prices w))]"
  using assms
  by (auto simp: load_prices_incremental_def prices_try_def merge_prices_def insert_prices_def
      Let_def log_audit_tables price_frame_def split: option.splits if_splits)

lemma products_completed:
  assumes "fst (load_products_incremental env (Inr records) w) = None" and "records \<noteq> []"
  shows "map products_v2 (snd (load_products_incremental env (Inr records) w)) =
     [products_v2 w,
      merge_stmt product_key product_changed product_is_current (merge_ts env)
        records (products_v2 w),
      insert_stmt product_key (insert_ts env) records
        (merge_stmt product_key product_changed product_is_current (merge_ts env)
           records (products_v2 w)),
      insert_stmt product_key (insert_ts env) records
        (merge_stmt product_key product_changed product_is_current (merge_ts env)
           records (products_v2 w))]"
  using assms
  by (auto simp: load_products_incremental_def products_try_def merge_products_def
      insert_products_def Let_def log_audit_tables split: option.splits if_splits)

lemma price_frame_restamp:
  "price_frame now' distr rows = map (\<lambda>r. r\<lparr>updated_on := now'\<rparr>) (price_frame now distr rows)"
  by (simp add: price_frame_def split_def)

lemma last_of_map: "xs \<noteq> [] \<Longrightarrow> map f xs = ys \<Longrightarrow> f (last xs) = last ys"
  by (auto simp: last_map)

lemma prices_final_completed:
  assumes "fst (load_prices_incremental env (Inr rows) distr w) = None" and "rows \<noteq> []"
  shows "prices (final w (load_prices_incremental env (Inr rows) distr w)) =
      insert_stmt price_key (insert_ts env) (price_frame (batch_now env) distr rows)
        (merge_stmt price_key price_changed price_is_current (merge_ts env)
           (price_frame (batch_now env) distr rows) (prices w))"
proof -
  note c = prices_completed [OF assms]
  then have n: "snd (load_prices_incremental env (Inr rows) distr w) \<noteq> []" by auto
  from last_of_map [OF n c] n show ?thesis by (simp add: final_def)
qed

lemma products_final_completed:
  assumes "fst (load_products_incremental env (Inr records) w) = None" and "records \<noteq> []"
  shows "products_v2 (final w (load_products_incremental env (Inr records) w)) =
      insert_stmt product_key (insert_ts env) records
        (merge_stmt product_key product_changed product_is_current (merge_ts env)
           records (products_v2 w))"
proof -
  note c = products_completed [OF assms]
  then have n: "snd (load_products_incremental env (Inr records) w) \<noteq> []" by auto
  from last_of_map [OF n c] n show ?thesis by (simp add: final_def)
qed

lemma prices_rerun:
  assumes d: "distinct (map (\<lambda>(m, s, p, q). (m, s)) rows)"
    and r: "fst (load_prices_incremental env1 (Inr rows) distr w) = None"
    and w1: "w1 = final w (load_prices_incremental env1 (Inr rows) distr w)"
    and H: "list_all (\<lambda>(m, s, p, q).
              list_ex (\<lambda>t. price_key (cols t) = (m, s, distr) \<and> is_current t) (prices w1)) rows"
    and ts: "insert_ts env2 \<noteq> merge_ts env1"
    and v: "\<forall>t\<in>set (prices w). valid_to t \<noteq> Some (insert_ts env2)"
  shows "list_all (\<lambda>w'. prices w' = prices w1)
           (snd (load_prices_incremental env2 (Inr rows) distr w1))"
proof (cases "rows = []")
  case True
  then show ?thesis
    by (simp add: load_prices_incremental_def prices_try_def price_frame_def)
next
  case False
  let ?df = "price_frame (batch_now env1) distr rows"
  let ?f = "\<lambda>r::price_row. r\<lparr>updated_on := batch_now env2\<rparr>"
  have Y: "prices w1 = insert_stmt price_key (insert_ts env1) ?df
        (merge_stmt price_key price_changed price_is_current (merge_ts env1) ?df (prices w))"
    unfolding w1 using r False by (rule prices_final_completed)
  have dd: "distinct (map price_key ?df)" using d by (rule price_frame_distinct)
  have df2: "price_frame (batch_now env2) distr rows = map ?f ?df"
    by (rule price_frame_restamp)
  have Hs: "list_ex (on_current price_key s)
      (insert_stmt price_key (insert_ts env1) ?df
        (merge_stmt price_key price_changed price_is_current (merge_ts env1) ?df (prices w)))"
    if "s \<in> set ?df" for s
  proof -
    from that obtain m k p q where mk: "(m, k, p, q) \<in> set rows"
      and s: "s = \<lparr>manufacturer = m, sku = k, updated_on = batch_now env1,
                   price = p, quantity = q, distributor = distr\<rparr>"
      by (auto simp: price_frame_def)
    from H mk have "list_ex (\<lambda>t. price_key (cols t) = (m, k, distr) \<and> is_current t) (prices w1)"
      by (auto simp: list_all_iff)
    moreover have "on_current price_key s = (\<lambda>t. price_key (cols t) = (m, k, distr) \<and> is_current t)"
      by (rule ext) (simp add: on_current_def s price_key_def)
    ultimately show ?thesis by (simp add: Y)
  qed
  have vv: "valid_to t \<noteq> Some (insert_ts env2)" if "t \<in> set (prices w)" for t
    using v that by blast
  have irr: "\<not> price_changed s s" for s by (simp add: price_changed_def)
  have fc: "price_changed c (?f s) = price_changed c s" for c s by (simp add: price_changed_def)
  have fk: "price_key (?f s) = price_key s" for s by (simp add: price_key_def)
  note noop = rerun_is_noop [where f = ?f and changed = price_changed and key = price_key,
      OF dd irr fc fk Hs ts vv Y]
  have a: "merge_stmt price_key price_changed price_is_current (merge_ts env2)
            (price_frame (batch_now env2) distr rows) (prices w1) = prices w1"
    unfolding df2 by (rule noop(1))
  have b: "insert_stmt price_key (insert_ts env2)
            (price_frame (batch_now env2) distr rows) (prices w1) = prices w1"
    unfolding df2 by (rule noop(2))
  have "prices w' = prices w1"
    if "w' \<in> set (snd (load_prices_incremental env2 (Inr rows) distr w1))" for w'
    using prices_states [OF that] by (auto simp: a b)
  then show ?thesis by (simp add: list_all_iff)
qed

lemma products_rerun:
  assumes d: "distinct (map product_key records)"
    and r: "fst (load_products_incremental env1 (Inr records) w) = None"
    and w1: "w1 = final w (load_products_incremental env1 (Inr records) w)"
    and H: "list_all (\<lambda>s. list_ex (on_current product_key s) (products_v2 w1)) records"
    and ts: "insert_ts env2 \<noteq> merge_ts env1"
    and v: "\<forall>t\<in>set (products_v2 w). valid_to t \<noteq> Some (insert_ts env2)"
  shows "list_all (\<lambda>w'. products_v2 w' = products_v2 w1)
           (snd (load_products_incremental env2 (Inr records) w1))"
proof (cases "records = []")
  case True
  then show ?thesis
    by (simp add: load_products_incremental_def products_try_def)
next
  case False
  have Y: "products_v2 w1 = insert_stmt product_key (insert_ts env1) records
        (merge_stmt product_key product_changed product_is_current (merge_ts env1) records
           (products_v2 w))"
    unfolding w1 using r False by (rule products_final_completed)
  have Hs: "list_ex (on_current product_key s)
      (insert_stmt product_key (insert_ts env1) records
        (merge_stmt product_key product_changed product_is_current (merge_ts env1) records
           (products_v2 w)))"
    if "s \<in> set records" for s
    using H that by (simp add: list_all_iff Y)
  have vv: "valid_to t \<noteq> Some (insert_ts env2)" if "t \<in> set (products_v2 w)" for t
    using v that by blast
  have irr: "\<not> product_changed s s" for s by (simp add: product_changed_def)
  note noop = rerun_is_noop [where f = "\<lambda>r. r" and changed = product_changed and key = product_key,
      OF d irr refl refl Hs ts vv Y]
  have a: "merge_stmt product_key product_changed product_is_current (merge_ts env2)
            records (products_v2 w1) = products_v2 w1"
    using noop(1) [of product_is_current "merge_ts env2"] by simp
  have b: "insert_stmt product_key (insert_ts env2) records (products_v2 w1) = products_v2 w1"
    using noop(2) by simp
  have "products_v2 w' = products_v2 w1"
    if "w' \<in> set (snd (load_products_incremental env2 (Inr records) w1))" for w'
    using products_states [OF that] by (auto simp: a b)
  then show ?thesis by (simp add: list_all_iff)
qed

subsection \<open>One timestamp for the close and the insert\<close>

text \<open>
  C1. The loaders have no timestamp of the run: each of the two statements evaluates
  \<^verbatim>\<open>CURRENT_TIMESTAMP()\<close> for itself. All versions a \<^verbatim>\<open>MERGE\<close> closes
  get the timestamp of that statement, but the \<^verbatim>\<open>INSERT ... SELECT\<close> looks for
  the versions to replace with \<^verbatim>\<open>tgt.valid_to = CURRENT_TIMESTAMP()\<close>, so it
  finds them only when it reads the timestamp the \<^verbatim>\<open>MERGE\<close> read; when it reads
  a later one it inserts nothing (\<open>insert_adds_nothing_after_clock_tick\<close>). In the two
  runs below the \<^verbatim>\<open>MERGE\<close> reads 5 and the \<^verbatim>\<open>INSERT ... SELECT\<close>
  reads 6: the current version of the key is closed at 5, and no version with
  \<^verbatim>\<open>valid_from\<close> 5, or any other replacement, is written.
\<close>

theorem replacement_lost_when_clock_advances:
  "prices (final stocked
     (load_prices_incremental (env_at 5 6) (Inr [(''Acme'', ''X1'', 12.99, 5)]) ''D1'' stocked))
   = [\<lparr>cols = acme_at 9.99 1, valid_from = 1, valid_to = Some 5, is_current = False,
       ingestion_timestamp = 1\<rparr>] \<and>
   products_v2 (final stocked
     (load_products_incremental (env_at 5 6) (Inr [widget 2 ''{}'']) stocked))
   = [\<lparr>cols = widget 1 ''{}'', valid_from = 1, valid_to = Some 5, is_current = False,
       ingestion_timestamp = 1\<rparr>]"
  by (simp add: run_defs ex_defs)

subsection \<open>The close and the insert as one step\<close>

text \<open>
  C2. A run that completes on a non-empty batch passes through four states of the
  target table: as it was (after staging), after the \<^verbatim>\<open>MERGE\<close>, after the
  \<^verbatim>\<open>INSERT ... SELECT\<close>, and the same after the audit write. The two statements
  are sent one after the other, outside any transaction. The \<^verbatim>\<open>MERGE\<close> applies
  all closes (and the inserts of new keys) at once; in the state it leaves, every key
  whose current version it closed has no current version, when the target satisfied
  I1 before.
\<close>

theorem close_and_insert_are_separate_statements:
  assumes "fst (load_prices_incremental env (Inr rows) distr w) = None" and "rows \<noteq> []"
    and "I1 price_key (prices w)"
    and "df = price_frame (batch_now env) distr rows"
    and "M = merge_stmt price_key price_changed price_is_current (merge_ts env) df (prices w)"
    and "fst (load_products_incremental env (Inr records) w) = None" and "records \<noteq> []"
    and "I1 product_key (products_v2 w)"
    and "M' = merge_stmt product_key product_changed product_is_current (merge_ts env)
                records (products_v2 w)"
  shows "map prices (snd (load_prices_incremental env (Inr rows) distr w)) =
           [prices w, M, insert_stmt price_key (insert_ts env) df M,
            insert_stmt price_key (insert_ts env) df M] \<and>
         (\<forall>t\<in>set (prices w). superseded price_key price_changed df t \<longrightarrow>
            current_versions price_key (price_key (cols t)) M = []) \<and>
         map products_v2 (snd (load_products_incremental env (Inr records) w)) =
           [products_v2 w, M', insert_stmt product_key (insert_ts env) records M',
            insert_stmt product_key (insert_ts env) records M'] \<and>
         (\<forall>t\<in>set (products_v2 w). superseded product_key product_changed records t \<longrightarrow>
            current_versions product_key (product_key (cols t)) M' = [])"
proof (intro conjI ballI impI)
  show "map prices (snd (load_prices_incremental env (Inr rows) distr w)) =
           [prices w, M, insert_stmt price_key (insert_ts env) df M,
            insert_stmt price_key (insert_ts env) df M]"
    unfolding assms(4,5) using assms(1,2) by (rule prices_completed)
  show "map products_v2 (snd (load_products_incremental env (Inr records) w)) =
           [products_v2 w, M', insert_stmt product_key (insert_ts env) records M',
            insert_stmt product_key (insert_ts env) records M']"
    unfolding assms(9) using assms(6,7) by (rule products_completed)
next
  fix t assume "t \<in> set (prices w)" "superseded price_key price_changed df t"
  then show "current_versions price_key (price_key (cols t)) M = []"
    unfolding assms(5) by (rule merge_leaves_no_current [OF assms(3)])
next
  fix t assume "t \<in> set (products_v2 w)" "superseded product_key product_changed records t"
  then show "current_versions product_key (product_key (cols t)) M' = []"
    unfolding assms(9) by (rule merge_leaves_no_current [OF assms(8)])
qed

theorem close_and_insert_are_separate_statements_witness:
  "map (map is_current) (map prices
     (snd (load_prices_incremental (env_at 5 5) (Inr [(''Acme'', ''X1'', 12.99, 5)]) ''D1'' stocked)))
     = [[True], [False], [False, True], [False, True]] \<and>
   current_versions price_key (''Acme'', ''X1'', ''D1'')
     (merge_stmt price_key price_changed price_is_current 5 [acme_at 12.99 5] (prices stocked)) = [] \<and>
   map (map is_current) (map products_v2
     (snd (load_products_incremental (env_at 5 5) (Inr [widget 2 ''{}'']) stocked)))
     = [[True], [False], [False, True], [False, True]] \<and>
   current_versions product_key (''Acme'', ''W1'')
     (merge_stmt product_key product_changed product_is_current 5 [widget 2 ''{}'']
        (products_v2 stocked)) = []"
proof -
  have h1: "fst (load_prices_incremental (env_at 5 5) (Inr [(''Acme'', ''X1'', 12.99, 5)]) ''D1''
              stocked) = None"
    by (simp add: run_defs ex_defs)
  have h2: "[(''Acme'', ''X1'', 12.99 :: real, 5 :: int)] \<noteq> []" by simp
  have h3: "I1 price_key (prices stocked)" by (simp add: I1_def stocked_def)
  have h4: "fst (load_products_incremental (env_at 5 5) (Inr [widget 2 ''{}'']) stocked) = None"
    by (simp add: run_defs ex_defs)
  have h5: "[widget 2 ''{}''] \<noteq> []" by simp
  have h6: "I1 product_key (products_v2 stocked)" by (simp add: I1_def stocked_def)
  have f: "price_frame (batch_now (env_at 5 5)) ''D1'' [(''Acme'', ''X1'', 12.99, 5)]
      = [acme_at 12.99 5]"
    by (simp add: price_frame_def env_at_def acme_at_def)
  have s1: "superseded price_key price_changed [acme_at 12.99 5]
      \<lparr>cols = acme_at 9.99 1, valid_from = 1, valid_to = None, is_current = True,
        ingestion_timestamp = 1\<rparr>"
    by (simp add: superseded_def on_current_def price_key_def price_changed_def acme_at_def)
  have s2: "superseded product_key product_changed [widget 2 ''{}'']
      \<lparr>cols = widget 1 ''{}'', valid_from = 1, valid_to = None, is_current = True,
        ingestion_timestamp = 1\<rparr>"
    by (simp add: superseded_def on_current_def product_key_def product_changed_def widget_def)
  have k: "price_key (acme_at 9.99 1) = (''Acme'', ''X1'', ''D1'')"
    "product_key (widget 1 ''{}'') = (''Acme'', ''W1'')"
    "merge_ts (env_at 5 5) = 5"
    by (simp_all add: price_key_def product_key_def ex_defs env_at_def)
  note t = close_and_insert_are_separate_statements [OF h1 h2 h3 refl refl h4 h5 h6 refl]
  have a: "map (map is_current) (map prices
     (snd (load_prices_incremental (env_at 5 5) (Inr [(''Acme'', ''X1'', 12.99, 5)]) ''D1'' stocked)))
     = [[True], [False], [False, True], [False, True]]"
    by (simp add: run_defs ex_defs)
  have m1: "\<lparr>cols = acme_at 9.99 1, valid_from = 1, valid_to = None, is_current = True,
        ingestion_timestamp = 1\<rparr> \<in> set (prices stocked)"
    by (simp add: stocked_def)
  from t have "\<forall>t\<in>set (prices stocked).
      superseded price_key price_changed
        (price_frame (batch_now (env_at 5 5)) ''D1'' [(''Acme'', ''X1'', 12.99, 5)]) t \<longrightarrow>
      current_versions price_key (price_key (cols t))
        (merge_stmt price_key price_changed price_is_current (merge_ts (env_at 5 5))
           (price_frame (batch_now (env_at 5 5)) ''D1'' [(''Acme'', ''X1'', 12.99, 5)])
           (prices stocked)) = []"
    by (elim conjE)
  from this [unfolded f k(3), rule_format, OF m1 s1]
  have b: "current_versions price_key (''Acme'', ''X1'', ''D1'')
     (merge_stmt price_key price_changed price_is_current 5 [acme_at 12.99 5] (prices stocked)) = []"
    by (simp add: price_key_def acme_at_def)
  have c: "map (map is_current) (map products_v2
     (snd (load_products_incremental (env_at 5 5) (Inr [widget 2 ''{}'']) stocked)))
     = [[True], [False], [False, True], [False, True]]"
    by (simp add: run_defs ex_defs)
  have m2: "\<lparr>cols = widget 1 ''{}'', valid_from = 1, valid_to = None, is_current = True,
        ingestion_timestamp = 1\<rparr> \<in> set (products_v2 stocked)"
    by (simp add: stocked_def)
  from t have "\<forall>t\<in>set (products_v2 stocked).
      superseded product_key product_changed [widget 2 ''{}''] t \<longrightarrow>
      current_versions product_key (product_key (cols t))
        (merge_stmt product_key product_changed product_is_current (merge_ts (env_at 5 5))
           [widget 2 ''{}''] (products_v2 stocked)) = []"
    by (elim conjE)
  from this [unfolded k(3), rule_format, OF m2 s2]
  have d: "current_versions product_key (''Acme'', ''W1'')
     (merge_stmt product_key product_changed product_is_current 5 [widget 2 ''{}'']
        (products_v2 stocked)) = []"
    by (simp add: product_key_def widget_def)
  from a b c d show ?thesis by simp
qed

text \<open>
  The version of Acme, X1, D1 is current before the run, no version of the key is
  current after the \<^verbatim>\<open>MERGE\<close>, and one is again after the
  \<^verbatim>\<open>INSERT ... SELECT\<close> (both statements read the timestamp 5).
\<close>

theorem intermediate_state_without_current_version:
  "map (\<lambda>w'. length (current_versions price_key (''Acme'', ''X1'', ''D1'') (prices w')))
     (snd (load_prices_incremental (env_at 5 5) (Inr [(''Acme'', ''X1'', 12.99, 5)]) ''D1'' stocked))
   = [1, 0, 1, 1]"
  by (simp add: run_defs stocked_def acme_at_def)

subsection \<open>I1: at most one current version per key\<close>




subsection \<open>I2: no end of validity exactly on the current versions\<close>

text \<open>
  C4. The price loader keeps I2 in every state of every run. The product loader keeps
  I2 in every state of a run whose batch has no two rows of the same natural key. With
  such rows the product \<^verbatim>\<open>MERGE\<close> inserts the older ones with
  \<^verbatim>\<open>is_current = FALSE\<close> and \<^verbatim>\<open>valid_to\<close> left \<^verbatim>\<open>NULL\<close>.
\<close>

theorem I2_kept:
  assumes "I2 (prices w)" and "I2 (products_v2 w)" and "distinct (map product_key records)"
  shows "list_all (\<lambda>w'. I2 (prices w')) (snd (load_prices_incremental env csv_file distr w)) \<and>
         list_all (\<lambda>w'. I2 (products_v2 w'))
           (snd (load_products_incremental env (Inr records) w))"
proof -
  have m: "I2 (merge_stmt price_key price_changed price_is_current T stg (prices w))" for T stg
    using assms(1) by (rule I2_merge_stmt) (simp add: price_is_current_def)
  have p: "I2 (prices w')"
    if "w' \<in> set (snd (load_prices_incremental env csv_file distr w))" for w'
  proof (cases csv_file)
    case (Inl e)
    with that assms(1) show ?thesis by (simp add: prices_states_unread)
  next
    case (Inr rows)
    with that prices_states [of w' env rows distr w] assms(1) m I2_insert_stmt [OF m]
    show ?thesis by auto
  qed
  have n: "I2 (merge_stmt product_key product_changed product_is_current T records (products_v2 w))" for T
    using assms(2) by (rule I2_merge_stmt) (rule product_is_current_distinct [OF assms(3)])
  have q: "I2 (products_v2 w')"
    if "w' \<in> set (snd (load_products_incremental env (Inr records) w))" for w'
    using products_states [OF that] assms(2) n I2_insert_stmt [OF n] by auto
  show ?thesis using p q by (simp add: list_all_iff)
qed

theorem I2_kept_witness:
  "list_all (\<lambda>w'. I2 (prices w'))
     (snd (load_prices_incremental (env_at 5 5) (Inr [(''Acme'', ''X1'', 12.99, 5)]) ''D1'' stocked)) \<and>
   list_all (\<lambda>w'. I2 (products_v2 w'))
     (snd (load_products_incremental (env_at 5 5) (Inr [widget 2 ''{}'']) stocked)) \<and>
   length (snd (load_products_incremental (env_at 5 5) (Inr [widget 2 ''{}'']) stocked)) = 4"
proof -
  have h1: "I2 (prices stocked)" by (simp add: I2_def stocked_def)
  have h2: "I2 (products_v2 stocked)" by (simp add: I2_def stocked_def)
  have h3: "distinct (map product_key [widget 2 ''{}''])" by simp
  have n: "length (snd (load_products_incremental (env_at 5 5) (Inr [widget 2 ''{}'']) stocked)) = 4"
    by (simp add: run_defs ex_defs)
  from I2_kept [OF h1 h2 h3] n show ?thesis by simp
qed

text \<open>Two product rows of one key, updated at 1 and at 2, on an empty target.\<close>

theorem older_duplicate_breaks_I2:
  "fst (load_products_incremental (env_at 5 5) (Inr [widget 1 ''{}'', widget 2 ''{}'']) empty_warehouse) = None \<and>
   products_v2 (final empty_warehouse
     (load_products_incremental (env_at 5 5) (Inr [widget 1 ''{}'', widget 2 ''{}'']) empty_warehouse))
   = [\<lparr>cols = widget 1 ''{}'', valid_from = 5, valid_to = None, is_current = False,
        ingestion_timestamp = 5\<rparr>,
      \<lparr>cols = widget 2 ''{}'', valid_from = 5, valid_to = None, is_current = True,
        ingestion_timestamp = 5\<rparr>] \<and>
   \<not> I2 (products_v2 (final empty_warehouse
     (load_products_incremental (env_at 5 5) (Inr [widget 1 ''{}'', widget 2 ''{}'']) empty_warehouse)))"
  by (simp add: run_defs widget_def)

subsection \<open>A new key and then a changed payload\<close>

text \<open>
  C5. Acme, X1, D1 is loaded at price 9.99 into an empty target, and loaded again at
  price 12.99 by a run whose \<^verbatim>\<open>MERGE\<close> reads the timestamp 5 and whose
  \<^verbatim>\<open>INSERT ... SELECT\<close> reads 6. Both runs complete. The target then holds one
  version of the key, not two: the first, closed at 5. The version with the new price
  is missing, for the reason given under C1.
\<close>

theorem round_trip_loses_second_version:
  "fst (load_prices_incremental (env_at 1 2) (Inr [(''Acme'', ''X1'', 9.99, 5)]) ''D1''
          empty_warehouse) = None \<and>
   fst (load_prices_incremental (env_at 5 6) (Inr [(''Acme'', ''X1'', 12.99, 5)]) ''D1''
     (final empty_warehouse
       (load_prices_incremental (env_at 1 2) (Inr [(''Acme'', ''X1'', 9.99, 5)]) ''D1''
          empty_warehouse))) = None \<and>
   prices (final (final empty_warehouse
       (load_prices_incremental (env_at 1 2) (Inr [(''Acme'', ''X1'', 9.99, 5)]) ''D1''
          empty_warehouse))
     (load_prices_incremental (env_at 5 6) (Inr [(''Acme'', ''X1'', 12.99, 5)]) ''D1''
       (final empty_warehouse
         (load_prices_incremental (env_at 1 2) (Inr [(''Acme'', ''X1'', 9.99, 5)]) ''D1''
            empty_warehouse))))
   = [\<lparr>cols = acme_at 9.99 1, valid_from = 1, valid_to = Some 5, is_current = False,
       ingestion_timestamp = 1\<rparr>]"
  by (simp add: run_defs acme_at_def)

text \<open>When both statements of the second run read the timestamp 5, the two versions are
  there: the first closed at 5, the second current from 5.\<close>

lemma round_trip_when_timestamps_agree:
  "prices (final stocked
     (load_prices_incremental (env_at 5 5) (Inr [(''Acme'', ''X1'', 12.99, 5)]) ''D1'' stocked))
   = [\<lparr>cols = acme_at 9.99 1, valid_from = 1, valid_to = Some 5, is_current = False,
       ingestion_timestamp = 1\<rparr>,
      \<lparr>cols = acme_at 12.99 5, valid_from = 5, valid_to = None, is_current = True,
       ingestion_timestamp = 5\<rparr>]"
  by (simp add: run_defs ex_defs)

subsection \<open>Running a merged batch again\<close>

text \<open>
  C6. A batch with no two rows of the same natural key has been merged by a run that
  completed, and every key of the batch has a current version in the target after that
  run. Running the same batch again then leaves the target table as it is in every
  state of the second run: no version is inserted and none is closed. The timestamp
  the second \<^verbatim>\<open>INSERT ... SELECT\<close> reads is assumed to be new: it is not the one
  the first \<^verbatim>\<open>MERGE\<close> read, and no version of the original target was closed
  at it.
\<close>

theorem rerun_of_merged_batch_changes_nothing:
  assumes "distinct (map (\<lambda>(m, s, p, q). (m, s)) rows)"
    and "fst (load_prices_incremental env1 (Inr rows) distr w) = None"
    and "w1 = final w (load_prices_incremental env1 (Inr rows) distr w)"
    and "list_all (\<lambda>(m, s, p, q).
           list_ex (\<lambda>t. price_key (cols t) = (m, s, distr) \<and> is_current t) (prices w1)) rows"
    and "\<forall>t\<in>set (prices w). valid_to t \<noteq> Some (insert_ts env2)"
    and "distinct (map product_key records)"
    and "fst (load_products_incremental env1 (Inr records) w) = None"
    and "v1 = final w (load_products_incremental env1 (Inr records) w)"
    and "list_all (\<lambda>s. list_ex (on_current product_key s) (products_v2 v1)) records"
    and "\<forall>t\<in>set (products_v2 w). valid_to t \<noteq> Some (insert_ts env2)"
    and "insert_ts env2 \<noteq> merge_ts env1"
  shows "list_all (\<lambda>w'. prices w' = prices w1)
           (snd (load_prices_incremental env2 (Inr rows) distr w1)) \<and>
         list_all (\<lambda>w'. products_v2 w' = products_v2 v1)
           (snd (load_products_incremental env2 (Inr records) v1))"
  using prices_rerun [OF assms(1,2,3,4,11,5)] products_rerun [OF assms(6,7,8,9,11,10)]
  by simp

theorem rerun_of_merged_batch_changes_nothing_witness:
  "list_all (\<lambda>w'. prices w' =
       prices (final stocked
         (load_prices_incremental (env_at 5 5) (Inr [(''Acme'', ''X1'', 12.99, 5)]) ''D1'' stocked)))
     (snd (load_prices_incremental (env_at 8 9) (Inr [(''Acme'', ''X1'', 12.99, 5)]) ''D1''
        (final stocked
          (load_prices_incremental (env_at 5 5) (Inr [(''Acme'', ''X1'', 12.99, 5)]) ''D1'' stocked)))) \<and>
   list_all (\<lambda>w'. products_v2 w' =
       products_v2 (final stocked
         (load_products_incremental (env_at 5 5) (Inr [widget 2 ''{}'']) stocked)))
     (snd (load_products_incremental (env_at 8 9) (Inr [widget 2 ''{}''])
        (final stocked
          (load_products_incremental (env_at 5 5) (Inr [widget 2 ''{}'']) stocked)))) \<and>
   length (snd (load_prices_incremental (env_at 8 9) (Inr [(''Acme'', ''X1'', 12.99, 5)]) ''D1''
        (final stocked
          (load_prices_incremental (env_at 5 5) (Inr [(''Acme'', ''X1'', 12.99, 5)]) ''D1'' stocked)))) = 4"
proof -
  let ?w1 = "final stocked
      (load_prices_incremental (env_at 5 5) (Inr [(''Acme'', ''X1'', 12.99, 5)]) ''D1'' stocked)"
  let ?v1 = "final stocked (load_products_incremental (env_at 5 5) (Inr [widget 2 ''{}'']) stocked)"
  have h1: "distinct (map (\<lambda>(m, s, p, q). (m, s)) [(''Acme'', ''X1'', 12.99 :: real, 5 :: int)])"
    by simp
  have h2: "fst (load_prices_incremental (env_at 5 5) (Inr [(''Acme'', ''X1'', 12.99, 5)]) ''D1''
              stocked) = None"
    by (simp add: run_defs ex_defs)
  have h4: "list_all (\<lambda>(m, s, p, q).
           list_ex (\<lambda>t. price_key (cols t) = (m, s, ''D1'') \<and> is_current t) (prices ?w1))
           [(''Acme'', ''X1'', 12.99, 5)]"
    by (simp add: run_defs ex_defs)
  have h5: "\<forall>t\<in>set (prices stocked). valid_to t \<noteq> Some (insert_ts (env_at 8 9))"
    by (simp add: stocked_def)
  have h6: "distinct (map product_key [widget 2 ''{}''])" by simp
  have h7: "fst (load_products_incremental (env_at 5 5) (Inr [widget 2 ''{}'']) stocked) = None"
    by (simp add: run_defs ex_defs)
  have h9: "list_all (\<lambda>s. list_ex (on_current product_key s) (products_v2 ?v1)) [widget 2 ''{}'']"
    by (simp add: run_defs ex_defs)
  have h10: "\<forall>t\<in>set (products_v2 stocked). valid_to t \<noteq> Some (insert_ts (env_at 8 9))"
    by (simp add: stocked_def)
  have h11: "insert_ts (env_at 8 9) \<noteq> merge_ts (env_at 5 5)" by (simp add: env_at_def)
  have n: "length (snd (load_prices_incremental (env_at 8 9)
      (Inr [(''Acme'', ''X1'', 12.99, 5)]) ''D1'' ?w1)) = 4"
    by (simp add: run_defs ex_defs)
  from rerun_of_merged_batch_changes_nothing [OF h1 h2 refl h4 h5 h6 h7 refl h9 h10 h11] n
  show ?thesis by simp
qed

text \<open>
  A batch with two rows of one key, merged into an empty target and run again; in both
  runs the two statements read the same timestamp. The second run closes the two
  versions the first one inserted and inserts four.
\<close>

theorem rerun_of_duplicates_closes_and_inserts:
  "map is_current (prices (final empty_warehouse (load_prices_incremental (env_at 1 1)
          (Inr [(''Acme'', ''X1'', 9.99, 5), (''Acme'', ''X1'', 12.99, 5)]) ''D1'' empty_warehouse)))
   = [True, True] \<and>
   map is_current (prices (final
       (final empty_warehouse (load_prices_incremental (env_at 1 1)
          (Inr [(''Acme'', ''X1'', 9.99, 5), (''Acme'', ''X1'', 12.99, 5)]) ''D1'' empty_warehouse))
       (load_prices_incremental (env_at 5 5)
          (Inr [(''Acme'', ''X1'', 9.99, 5), (''Acme'', ''X1'', 12.99, 5)]) ''D1''
          (final empty_warehouse (load_prices_incremental (env_at 1 1)
          (Inr [(''Acme'', ''X1'', 9.99, 5), (''Acme'', ''X1'', 12.99, 5)]) ''D1'' empty_warehouse)))))
   = [False, False, True, True, True, True]"
  by (simp add: run_defs)

subsection \<open>The empty batch\<close>

text \<open>
  C7. A batch with no rows: nothing is staged, no statement runs, nothing is raised,
  and the run leaves the warehouse as it was. The loaders call \<^verbatim>\<open>log_audit\<close>
  only inside the branch of a non-empty batch, so no audit entry is written, and in
  particular no \<^verbatim>\<open>SUCCESS\<close> entry with zero records.
\<close>

theorem empty_batch_changes_nothing:
  "load_prices_incremental env (Inr []) distr w = (None, []) \<and>
   final w (load_prices_incremental env (Inr []) distr w) = w \<and>
   load_products_incremental env (Inr []) w = (None, []) \<and>
   final w (load_products_incremental env (Inr []) w) = w"
  by (simp add: load_prices_incremental_def prices_try_def price_frame_def
      load_products_incremental_def products_try_def final_def)

theorem empty_batch_writes_no_audit_entry:
  "etl_audit_log (final empty_warehouse
      (load_prices_incremental (env_at 1 2) (Inr []) ''D1'' empty_warehouse)) = [] \<and>
   etl_audit_log (final empty_warehouse
      (load_products_incremental (env_at 1 2) (Inr []) empty_warehouse)) = []"
  by (simp add: load_prices_incremental_def prices_try_def price_frame_def
      load_products_incremental_def products_try_def final_def empty_warehouse_def)

subsection \<open>A run that fails\<close>

text \<open>
  C8. A run fails with \<open>e\<close> when reading the file raises \<open>e\<close>, or, on a non-empty batch,
  when the staging write raises \<open>e\<close>, when the \<^verbatim>\<open>MERGE\<close> raises \<open>e\<close> or is
  refused as nondeterministic, or when the \<^verbatim>\<open>INSERT ... SELECT\<close> raises \<open>e\<close>
  (each after the statements before it succeeded). The run then attempts one audit
  write with status \<^verbatim>\<open>ERROR\<close>, zero records and the message \<open>e\<close>, and raises
  \<open>e\<close> to the caller. The entry is in the log unless the audit write itself fails.
\<close>

theorem failure_is_logged_then_raised:
  "(fst (load_prices_incremental env (Inl e) distr w) = Some e \<and>
      etl_audit_log (final w (load_prices_incremental env (Inl e) distr w)) =
        (case audit_write env of
           Some x \<Rightarrow> etl_audit_log w
         | None \<Rightarrow> etl_audit_log w @
             [\<lparr>table_name = ''prices'', operation = ''MERGE'', records_processed = 0,
               start_time = start_now env, end_time = end_now env, status = ''ERROR'',
               error_message = Some e\<rparr>]))
   \<and> (rows \<noteq> [] \<and>
       (stage_write env = Some e
        \<or> stage_write env = None \<and> merge_exec env = Some e
        \<or> stage_write env = None \<and> merge_exec env = None
            \<and> error_on_nondeterministic_merge env
            \<and> nondeterministic price_key price_changed (price_frame (batch_now env) distr rows) (prices w)
            \<and> e = ''Duplicate row detected during DML action''
        \<or> stage_write env = None \<and> merge_exec env = None
            \<and> \<not> (error_on_nondeterministic_merge env
                 \<and> nondeterministic price_key price_changed (price_frame (batch_now env) distr rows) (prices w))
            \<and> insert_exec env = Some e)
      \<longrightarrow>
      fst (load_prices_incremental env (Inr rows) distr w) = Some e \<and>
      etl_audit_log (final w (load_prices_incremental env (Inr rows) distr w)) =
        (case audit_write env of
           Some x \<Rightarrow> etl_audit_log w
         | None \<Rightarrow> etl_audit_log w @
             [\<lparr>table_name = ''prices'', operation = ''MERGE'', records_processed = 0,
               start_time = start_now env, end_time = end_now env, status = ''ERROR'',
               error_message = Some e\<rparr>]))
   \<and> (fst (load_products_incremental env (Inl e) w) = Some e \<and>
      etl_audit_log (final w (load_products_incremental env (Inl e) w)) =
        (case audit_write env of
           Some x \<Rightarrow> etl_audit_log w
         | None \<Rightarrow> etl_audit_log w @
             [\<lparr>table_name = ''products_v2'', operation = ''MERGE'', records_processed = 0,
               start_time = start_now env, end_time = end_now env, status = ''ERROR'',
               error_message = Some e\<rparr>]))
   \<and> (records \<noteq> [] \<and>
       (stage_write env = Some e
        \<or> stage_write env = None \<and> merge_exec env = Some e
        \<or> stage_write env = None \<and> merge_exec env = None
            \<and> error_on_nondeterministic_merge env
            \<and> nondeterministic product_key product_changed records (products_v2 w)
            \<and> e = ''Duplicate row detected during DML action''
        \<or> stage_write env = None \<and> merge_exec env = None
            \<and> \<not> (error_on_nondeterministic_merge env
                 \<and> nondeterministic product_key product_changed records (products_v2 w))
            \<and> insert_exec env = Some e)
      \<longrightarrow>
      fst (load_products_incremental env (Inr records) w) = Some e \<and>
      etl_audit_log (final w (load_products_incremental env (Inr records) w)) =
        (case audit_write env of
           Some x \<Rightarrow> etl_audit_log w
         | None \<Rightarrow> etl_audit_log w @
             [\<lparr>table_name = ''products_v2'', operation = ''MERGE'', records_processed = 0,
               start_time = start_now env, end_time = end_now env, status = ''ERROR'',
               error_message = Some e\<rparr>]))"
proof (intro conjI impI)
  have r: "fst (prices_try env (Inl e) distr (start_now env) w) = Some e"
    by (simp add: prices_try_def)
  show "fst (load_prices_incremental env (Inl e) distr w) = Some e"
    by (rule prices_except_clause(1) [OF r])
  show "etl_audit_log (final w (load_prices_incremental env (Inl e) distr w)) =
        (case audit_write env of
           Some x \<Rightarrow> etl_audit_log w
         | None \<Rightarrow> etl_audit_log w @
             [\<lparr>table_name = ''prices'', operation = ''MERGE'', records_processed = 0,
               start_time = start_now env, end_time = end_now env, status = ''ERROR'',
               error_message = Some e\<rparr>])"
    by (rule prices_except_clause(2) [OF r])
next
  assume a: "rows \<noteq> [] \<and>
       (stage_write env = Some e
        \<or> stage_write env = None \<and> merge_exec env = Some e
        \<or> stage_write env = None \<and> merge_exec env = None
            \<and> error_on_nondeterministic_merge env
            \<and> nondeterministic price_key price_changed (price_frame (batch_now env) distr rows) (prices w)
            \<and> e = ''Duplicate row detected during DML action''
        \<or> stage_write env = None \<and> merge_exec env = None
            \<and> \<not> (error_on_nondeterministic_merge env
                 \<and> nondeterministic price_key price_changed (price_frame (batch_now env) distr rows) (prices w))
            \<and> insert_exec env = Some e)"
  then have r: "fst (prices_try env (Inr rows) distr (start_now env) w) = Some e"
    by (intro prices_try_fails) simp_all
  show "fst (load_prices_incremental env (Inr rows) distr w) = Some e"
    by (rule prices_except_clause(1) [OF r])
  show "etl_audit_log (final w (load_prices_incremental env (Inr rows) distr w)) =
        (case audit_write env of
           Some x \<Rightarrow> etl_audit_log w
         | None \<Rightarrow> etl_audit_log w @
             [\<lparr>table_name = ''prices'', operation = ''MERGE'', records_processed = 0,
               start_time = start_now env, end_time = end_now env, status = ''ERROR'',
               error_message = Some e\<rparr>])"
    by (rule prices_except_clause(2) [OF r])
next
  have r: "fst (products_try env (Inl e) (start_now env) w) = Some e"
    by (simp add: products_try_def)
  show "fst (load_products_incremental env (Inl e) w) = Some e"
    by (rule products_except_clause(1) [OF r])
  show "etl_audit_log (final w (load_products_incremental env (Inl e) w)) =
        (case audit_write env of
           Some x \<Rightarrow> etl_audit_log w
         | None \<Rightarrow> etl_audit_log w @
             [\<lparr>table_name = ''products_v2'', operation = ''MERGE'', records_processed = 0,
               start_time = start_now env, end_time = end_now env, status = ''ERROR'',
               error_message = Some e\<rparr>])"
    by (rule products_except_clause(2) [OF r])
next
  assume a: "records \<noteq> [] \<and>
       (stage_write env = Some e
        \<or> stage_write env = None \<and> merge_exec env = Some e
        \<or> stage_write env = None \<and> merge_exec env = None
            \<and> error_on_nondeterministic_merge env
            \<and> nondeterministic product_key product_changed records (products_v2 w)
            \<and> e = ''Duplicate row detected during DML action''
        \<or> stage_write env = None \<and> merge_exec env = None
            \<and> \<not> (error_on_nondeterministic_merge env
                 \<and> nondeterministic product_key product_changed records (products_v2 w))
            \<and> insert_exec env = Some e)"
  then have r: "fst (products_try env (Inr records) (start_now env) w) = Some e"
    by (intro products_try_fails) simp_all
  show "fst (load_products_incremental env (Inr records) w) = Some e"
    by (rule products_except_clause(1) [OF r])
  show "etl_audit_log (final w (load_products_incremental env (Inr records) w)) =
        (case audit_write env of
           Some x \<Rightarrow> etl_audit_log w
         | None \<Rightarrow> etl_audit_log w @
             [\<lparr>table_name = ''products_v2'', operation = ''MERGE'', records_processed = 0,
               start_time = start_now env, end_time = end_now env, status = ''ERROR'',
               error_message = Some e\<rparr>])"
    by (rule products_except_clause(2) [OF r])
qed

theorem failure_is_logged_then_raised_witness:
  "fst (load_prices_incremental (env_at 1 2) (Inl ''no such file'') ''D1'' stocked) = Some ''no such file'' \<and>
   etl_audit_log (final stocked (load_prices_incremental (env_at 1 2) (Inl ''no such file'') ''D1'' stocked)) =
     [\<lparr>table_name = ''prices'', operation = ''MERGE'', records_processed = 0,
       start_time = 1, end_time = 2, status = ''ERROR'', error_message = Some ''no such file''\<rparr>] \<and>
   fst (load_prices_incremental (env_stage_fails) (Inr [(''Acme'', ''X1'', 12.99, 5)]) ''D1'' stocked) = Some ''staging write failed'' \<and>
   etl_audit_log (final stocked (load_prices_incremental (env_stage_fails) (Inr [(''Acme'', ''X1'', 12.99, 5)]) ''D1'' stocked)) =
     [\<lparr>table_name = ''prices'', operation = ''MERGE'', records_processed = 0,
       start_time = 1, end_time = 2, status = ''ERROR'', error_message = Some ''staging write failed''\<rparr>] \<and>
   fst (load_prices_incremental (env_merge_fails) (Inr [(''Acme'', ''X1'', 12.99, 5)]) ''D1'' stocked) = Some ''merge failed'' \<and>
   etl_audit_log (final stocked (load_prices_incremental (env_merge_fails) (Inr [(''Acme'', ''X1'', 12.99, 5)]) ''D1'' stocked)) =
     [\<lparr>table_name = ''prices'', operation = ''MERGE'', records_processed = 0,
       start_time = 1, end_time = 2, status = ''ERROR'', error_message = Some ''merge failed''\<rparr>] \<and>
   fst (load_prices_incremental (env_at 1 2) (Inr [(''Acme'', ''X1'', 12.99, 5), (''Acme'', ''X1'', 13.99, 5)]) ''D1'' stocked) = Some ''Duplicate row detected during DML action'' \<and>
   etl_audit_log (final stocked (load_prices_incremental (env_at 1 2) (Inr [(''Acme'', ''X1'', 12.99, 5), (''Acme'', ''X1'', 13.99, 5)]) ''D1'' stocked)) =
     [\<lparr>table_name = ''prices'', operation = ''MERGE'', records_processed = 0,
       start_time = 1, end_time = 2, status = ''ERROR'', error_message = Some ''Duplicate row detected during DML action''\<rparr>] \<and>
   fst (load_prices_incremental (env_insert_fails) (Inr [(''Acme'', ''X1'', 12.99, 5)]) ''D1'' stocked) = Some ''insert failed'' \<and>
   etl_audit_log (final stocked (load_prices_incremental (env_insert_fails) (Inr [(''Acme'', ''X1'', 12.99, 5)]) ''D1'' stocked)) =
     [\<lparr>table_name = ''prices'', operation = ''MERGE'', records_processed = 0,
       start_time = 1, end_time = 2, status = ''ERROR'', error_message = Some ''insert failed''\<rparr>] \<and>
   fst (load_products_incremental (env_at 1 2) (Inl ''no such file'') stocked) = Some ''no such file'' \<and>
   etl_audit_log (final stocked (load_products_incremental (env_at 1 2) (Inl ''no such file'') stocked)) =
     [\<lparr>table_name = ''products_v2'', operation = ''MERGE'', records_processed = 0,
       start_time = 1, end_time = 2, status = ''ERROR'', error_message = Some ''no such file''\<rparr>] \<and>
   fst (load_products_incremental (env_stage_fails) (Inr [widget 2 ''{}'']) stocked) = Some ''staging write failed'' \<and>
   etl_audit_log (final stocked (load_products_incremental (env_stage_fails) (Inr [widget 2 ''{}'']) stocked)) =
     [\<lparr>table_name = ''products_v2'', operation = ''MERGE'', records_processed = 0,
       start_time = 1, end_time = 2, status = ''ERROR'', error_message = Some ''staging write failed''\<rparr>] \<and>
   fst (load_products_incremental (env_merge_fails) (Inr [widget 2 ''{}'']) stocked) = Some ''merge failed'' \<and>
   etl_audit_log (final stocked (load_products_incremental (env_merge_fails) (Inr [widget 2 ''{}'']) stocked)) =
     [\<lparr>table_name = ''products_v2'', operation = ''MERGE'', records_processed = 0,
       start_time = 1, end_time = 2, status = ''ERROR'', error_message = Some ''merge failed''\<rparr>] \<and>
   fst (load_products_incremental (env_at 1 2) (Inr [widget 2 ''{}'', widget 3 ''{}'']) stocked) = Some ''Duplicate row detected during DML action'' \<and>
   etl_audit_log (final stocked (load_products_incremental (env_at 1 2) (Inr [widget 2 ''{}'', widget 3 ''{}'']) stocked)) =
     [\<lparr>table_name = ''products_v2'', operation = ''MERGE'', records_processed = 0,
       start_time = 1, end_time = 2, status = ''ERROR'', error_message = Some ''Duplicate row detected during DML action''\<rparr>] \<and>
   fst (load_products_incremental (env_insert_fails) (Inr [widget 2 ''{}'']) stocked) = Some ''insert failed'' \<and>
   etl_audit_log (final stocked (load_products_incremental (env_insert_fails) (Inr [widget 2 ''{}'']) stocked)) =
     [\<lparr>table_name = ''products_v2'', operation = ''MERGE'', records_processed = 0,
       start_time = 1, end_time = 2, status = ''ERROR'', error_message = Some ''insert failed''\<rparr>]"
proof -
  from failure_is_logged_then_raised
    [where env = "env_at 1 2" and e = "''no such file''" and distr = "''D1''" and w = stocked
       and rows = "[(''Acme'', ''X1'', 12.99, 5)]" and records = "[widget 2 ''{}'']"]
  have f0: "fst (load_prices_incremental (env_at 1 2) (Inl ''no such file'') ''D1'' stocked) = Some ''no such file'' \<and>
   etl_audit_log (final stocked (load_prices_incremental (env_at 1 2) (Inl ''no such file'') ''D1'' stocked)) =
     [\<lparr>table_name = ''prices'', operation = ''MERGE'', records_processed = 0,
       start_time = 1, end_time = 2, status = ''ERROR'', error_message = Some ''no such file''\<rparr>]"
    by (simp add: hyp_defs)
  from failure_is_logged_then_raised
    [where env = "env_stage_fails" and e = "''staging write failed''" and distr = "''D1''" and w = stocked
       and rows = "[(''Acme'', ''X1'', 12.99, 5)]" and records = "[widget 2 ''{}'']"]
  have f1: "fst (load_prices_incremental (env_stage_fails) (Inr [(''Acme'', ''X1'', 12.99, 5)]) ''D1'' stocked) = Some ''staging write failed'' \<and>
   etl_audit_log (final stocked (load_prices_incremental (env_stage_fails) (Inr [(''Acme'', ''X1'', 12.99, 5)]) ''D1'' stocked)) =
     [\<lparr>table_name = ''prices'', operation = ''MERGE'', records_processed = 0,
       start_time = 1, end_time = 2, status = ''ERROR'', error_message = Some ''staging write failed''\<rparr>]"
    by (simp add: hyp_defs)
  from failure_is_logged_then_raised
    [where env = "env_merge_fails" and e = "''merge failed''" and distr = "''D1''" and w = stocked
       and rows = "[(''Acme'', ''X1'', 12.99, 5)]" and records = "[widget 2 ''{}'']"]
  have f2: "fst (load_prices_incremental (env_merge_fails) (Inr [(''Acme'', ''X1'', 12.99, 5)]) ''D1'' stocked) = Some ''merge failed'' \<and>
   etl_audit_log (final stocked (load_prices_incremental (env_merge_fails) (Inr [(''Acme'', ''X1'', 12.99, 5)]) ''D1'' stocked)) =
     [\<lparr>table_name = ''prices'', operation = ''MERGE'', records_processed = 0,
       start_time = 1, end_time = 2, status = ''ERROR'', error_message = Some ''merge failed''\<rparr>]"
    by (simp add: hyp_defs)
  from failure_is_logged_then_raised
    [where env = "env_at 1 2" and e = "''Duplicate row detected during DML action''" and distr = "''D1''" and w = stocked
       and rows = "[(''Acme'', ''X1'', 12.99, 5), (''Acme'', ''X1'', 13.99, 5)]" and records = "[widget 2 ''{}'']"]
  have f3: "fst (load_prices_incremental (env_at 1 2) (Inr [(''Acme'', ''X1'', 12.99, 5), (''Acme'', ''X1'', 13.99, 5)]) ''D1'' stocked) = Some ''Duplicate row detected during DML action'' \<and>
   etl_audit_log (final stocked (load_prices_incremental (env_at 1 2) (Inr [(''Acme'', ''X1'', 12.99, 5), (''Acme'', ''X1'', 13.99, 5)]) ''D1'' stocked)) =
     [\<lparr>table_name = ''prices'', operation = ''MERGE'', records_processed = 0,
       start_time = 1, end_time = 2, status = ''ERROR'', error_message = Some ''Duplicate row detected during DML action''\<rparr>]"
    by (simp add: hyp_defs)
  from failure_is_logged_then_raised
    [where env = "env_insert_fails" and e = "''insert failed''" and distr = "''D1''" and w = stocked
       and rows = "[(''Acme'', ''X1'', 12.99, 5)]" and records = "[widget 2 ''{}'']"]
  have f4: "fst (load_prices_incremental (env_insert_fails) (Inr [(''Acme'', ''X1'', 12.99, 5)]) ''D1'' stocked) = Some ''insert failed'' \<and>
   etl_audit_log (final stocked (load_prices_incremental (env_insert_fails) (Inr [(''Acme'', ''X1'', 12.99, 5)]) ''D1'' stocked)) =
     [\<lparr>table_name = ''prices'', operation = ''MERGE'', records_processed = 0,
       start_time = 1, end_time = 2, status = ''ERROR'', error_message = Some ''insert failed''\<rparr>]"
    by (simp add: hyp_defs)
  from failure_is_logged_then_raised
    [where env = "env_at 1 2" and e = "''no such file''" and distr = "''D1''" and w = stocked
       and rows = "[(''Acme'', ''X1'', 12.99, 5)]" and records = "[widget 2 ''{}'']"]
  have f5: "fst (load_products_incremental (env_at 1 2) (Inl ''no such file'') stocked) = Some ''no such file'' \<and>
   etl_audit_log (final stocked (load_products_incremental (env_at 1 2) (Inl ''no such file'') stocked)) =
     [\<lparr>table_name = ''products_v2'', operation = ''MERGE'', records_processed = 0,
       start_time = 1, end_time = 2, status = ''ERROR'', error_message = Some ''no such file''\<rparr>]"
    by (simp add: hyp_defs)
  from failure_is_logged_then_raised
    [where env = "env_stage_fails" and e = "''staging write failed''" and distr = "''D1''" and w = stocked
       and rows = "[(''Acme'', ''X1'', 12.99, 5)]" and records = "[widget 2 ''{}'']"]
  have f6: "fst (load_products_incremental (env_stage_fails) (Inr [widget 2 ''{}'']) stocked) = Some ''staging write failed'' \<and>
   etl_audit_log (final stocked (load_products_incremental (env_stage_fails) (Inr [widget 2 ''{}'']) stocked)) =
     [\<lparr>table_name = ''products_v2'', operation = ''MERGE'', records_processed = 0,
       start_time = 1, end_time = 2, status = ''ERROR'', error_message = Some ''staging write failed''\<rparr>]"
    by (simp add: hyp_defs)
  from failure_is_logged_then_raised
    [where env = "env_merge_fails" and e = "''merge failed''" and distr = "''D1''" and w = stocked
       and rows = "[(''Acme'', ''X1'', 12.99, 5)]" and records = "[widget 2 ''{}'']"]
  have f7: "fst (load_products_incremental (env_merge_fails) (Inr [widget 2 ''{}'']) stocked) = Some ''merge failed'' \<and>
   etl_audit_log (final stocked (load_products_incremental (env_merge_fails) (Inr [widget 2 ''{}'']) stocked)) =
     [\<lparr>table_name = ''products_v2'', operation = ''MERGE'', records_processed = 0,
       start_time = 1, end_time = 2, status = ''ERROR'', error_message = Some ''merge failed''\<rparr>]"
    by (simp add: hyp_defs)
  from failure_is_logged_then_raised
    [where env = "env_at 1 2" and e = "''Duplicate row detected during DML action''" and distr = "''D1''" and w = stocked
       and rows = "[(''Acme'', ''X1'', 12.99, 5)]" and records = "[widget 2 ''{}'', widget 3 ''{}'']"]
  have f8: "fst (load_products_incremental (env_at 1 2) (Inr [widget 2 ''{}'', widget 3 ''{}'']) stocked) = Some ''Duplicate row detected during DML action'' \<and>
   etl_audit_log (final stocked (load_products_incremental (env_at 1 2) (Inr [widget 2 ''{}'', widget 3 ''{}'']) stocked)) =
     [\<lparr>table_name = ''products_v2'', operation = ''MERGE'', records_processed = 0,
       start_time = 1, end_time = 2, status = ''ERROR'', error_message = Some ''Duplicate row detected during DML action''\<rparr>]"
    by (simp add: hyp_defs)
  from failure_is_logged_then_raised
    [where env = "env_insert_fails" and e = "''insert failed''" and distr = "''D1''" and w = stocked
       and rows = "[(''Acme'', ''X1'', 12.99, 5)]" and records = "[widget 2 ''{}'']"]
  have f9: "fst (load_products_incremental (env_insert_fails) (Inr [widget 2 ''{}'']) stocked) = Some ''insert failed'' \<and>
   etl_audit_log (final stocked (load_products_incremental (env_insert_fails) (Inr [widget 2 ''{}'']) stocked)) =
     [\<lparr>table_name = ''products_v2'', operation = ''MERGE'', records_processed = 0,
       start_time = 1, end_time = 2, status = ''ERROR'', error_message = Some ''insert failed''\<rparr>]"
    by (simp add: hyp_defs)
  from f0 f1 f2 f3 f4 f5 f6 f7 f8 f9 show ?thesis by simp
qed

subsection \<open>An audit write that fails\<close>

text \<open>
  C9. \<^verbatim>\<open>log_audit\<close> returns normally whether or not the audit write fails, so
  the outcome of a run (what it raises, if anything) and every state of the target
  table are the same for every behaviour \<open>a\<close> of the audit write.
\<close>

theorem audit_failure_keeps_outcome:
  "fst (load_prices_incremental (env\<lparr>audit_write := a\<rparr>) csv_file distr w) =
     fst (load_prices_incremental env csv_file distr w) \<and>
   map prices (snd (load_prices_incremental (env\<lparr>audit_write := a\<rparr>) csv_file distr w)) =
     map prices (snd (load_prices_incremental env csv_file distr w)) \<and>
   fst (load_products_incremental (env\<lparr>audit_write := a\<rparr>) json_file w) =
     fst (load_products_incremental env json_file w) \<and>
   map products_v2 (snd (load_products_incremental (env\<lparr>audit_write := a\<rparr>) json_file w)) =
     map products_v2 (snd (load_products_incremental env json_file w))"
proof -
  obtain r ws where p: "prices_try env csv_file distr (start_now env) w = (r, ws)"
    by (cases "prices_try env csv_file distr (start_now env) w")
  obtain r' ws' where p': "prices_try (env\<lparr>audit_write := a\<rparr>) csv_file distr (start_now env) w = (r', ws')"
    by (cases "prices_try (env\<lparr>audit_write := a\<rparr>) csv_file distr (start_now env) w")
  have e: "r' = r" "map prices ws' = map prices ws"
    using prices_try_audit_write [where env = env and a = a and csv_file = csv_file and distr = distr and started = "start_now env" and w = w] p p' by simp_all
  have l: "prices (last (w # ws')) = prices (last (w # ws))"
    using e(2) by (simp only: last_map_cons [of prices] )
  obtain q vs where j: "products_try env json_file (start_now env) w = (q, vs)"
    by (cases "products_try env json_file (start_now env) w")
  obtain q' vs' where j': "products_try (env\<lparr>audit_write := a\<rparr>) json_file (start_now env) w = (q', vs')"
    by (cases "products_try (env\<lparr>audit_write := a\<rparr>) json_file (start_now env) w")
  have f: "q' = q" "map products_v2 vs' = map products_v2 vs"
    using products_try_audit_write [where env = env and a = a and json_file = json_file and started = "start_now env" and w = w] j j' by simp_all
  have m: "products_v2 (last (w # vs')) = products_v2 (last (w # vs))"
    using f(2) by (simp only: last_map_cons [of products_v2])
  show ?thesis
    using p p' e l j j' f m
    by (simp add: load_prices_incremental_def load_products_incremental_def log_audit_tables
        split: option.splits)
qed

subsection \<open>Several staged rows of a new product key\<close>



end
